theory Spec2Isabelle
  imports Complex_Main "HOL-Library.Monad_Syntax" "HOL-Library.Multiset"
begin

section \<open>Strings\<close>

text \<open>
  A JavaScript string is modelled as a \<^typ>\<open>string\<close>: a list of 8-bit code units, read as
  Latin-1. On this range \<open>toLowerCase\<close> maps each code unit to one code unit (A-Z and the
  accented capitals 0xC0-0xDE other than the multiplication sign 0xD7 move up by 32), and the
  white space of \<open>\s\<close> and of \<open>trim\<close> is TAB, LF, VT, FF, CR, SP and NBSP.
\<close>

definition toLowerChar :: "char \<Rightarrow> char" where
  "toLowerChar c =
     (let n = (of_char c :: nat) in
      if (65 \<le> n \<and> n \<le> 90) \<or> (192 \<le> n \<and> n \<le> 222 \<and> n \<noteq> 215)
      then char_of (n + 32) else c)"

definition toLowerCase :: "string \<Rightarrow> string" where
  "toLowerCase s = map toLowerChar s"

text \<open>\<open>s.startsWith(k)\<close> and \<open>s.includes(k)\<close> (here \<open>includesStr\<close>): \<open>k\<close> occurs at the front of, or somewhere in, \<open>s\<close>.\<close>

fun startsWith :: "string \<Rightarrow> string \<Rightarrow> bool" where
  "startsWith s [] = True"
| "startsWith [] (k # ks) = False"
| "startsWith (c # cs) (k # ks) = (c = k \<and> startsWith cs ks)"

fun includesStr :: "string \<Rightarrow> string \<Rightarrow> bool" where
  "includesStr [] k = (k = [])"
| "includesStr (c # cs) k = (startsWith (c # cs) k \<or> includesStr cs k)"

text \<open>\<open>xs.join(sep)\<close>.\<close>

fun join :: "string \<Rightarrow> string list \<Rightarrow> string" where
  "join sep [] = []"
| "join sep [x] = x"
| "join sep (x # y # ys) = x @ sep @ join sep (y # ys)"

text \<open>An array read \<open>xs[i]\<close>; out of range it is \<open>undefined\<close>, here \<open>None\<close>.\<close>

definition arrayAt :: "'a list \<Rightarrow> int \<Rightarrow> 'a option" where
  "arrayAt xs i = (if 0 \<le> i \<and> i < int (length xs) then Some (xs ! nat i) else None)"

text \<open>The characters matched by \<open>\s\<close> and removed by \<open>trim\<close>, and the digits \<open>[0-9]\<close>.\<close>

definition isWhiteSpace :: "char \<Rightarrow> bool" where
  "isWhiteSpace c = (c \<in> set [CHR 0x09, CHR 0x0A, CHR 0x0B, CHR 0x0C, CHR 0x0D, CHR 0x20, CHR 0xA0])"

definition isDigit :: "char \<Rightarrow> bool" where
  "isDigit c = (c \<in> set ''0123456789'')"

definition trim :: "string \<Rightarrow> string" where
  "trim s = rev (dropWhile isWhiteSpace (rev (dropWhile isWhiteSpace s)))"

text \<open>
  \<open>text.split(regex)\<close> for a regular expression that never matches the empty string.
  The matcher \<open>m c cs\<close> is the regular expression anchored at the front of \<open>c # cs\<close>:
  \<open>Some k\<close> when it matches \<open>c\<close> and the next \<open>k\<close> characters, \<open>None\<close> when it does not
  match there. As in the language's split, the text is scanned from the left; where the
  expression matches, the piece collected so far is emitted and the scan resumes after the
  match; where it does not, the character joins the current piece.
\<close>

fun splitBy :: "(char \<Rightarrow> string \<Rightarrow> nat option) \<Rightarrow> string \<Rightarrow> string \<Rightarrow> string list" where
  "splitBy m piece [] = [piece]"
| "splitBy m piece (c # cs) =
     (case m c cs of
        Some k \<Rightarrow> piece # splitBy m [] (drop k cs)
      | None \<Rightarrow> splitBy m (piece @ [c]) cs)"

text \<open>
  A regular expression anchored at the front of a string yields its capture or \<open>None\<close>;
  \<open>text.match(regex)\<close> takes the leftmost position where it matches.
\<close>

fun regexSearch :: "(string \<Rightarrow> 'a option) \<Rightarrow> string \<Rightarrow> 'a option" where
  "regexSearch m [] = m []"
| "regexSearch m (c # cs) = (case m (c # cs) of Some r \<Rightarrow> Some r | None \<Rightarrow> regexSearch m cs)"

text \<open>
  The pieces of the patterns, each returning the rest of the string after its match:
  a literal under the \<open>i\<close> flag (the literals of the source are in lower case),
  \<open>\s+\<close>, and the captures \<open>([0-9]+)\<close> and \<open>[0-9\.]+\<close>. The repetitions are greedy, and
  since what follows each of them cannot start with a character of the repeated class,
  giving characters back never leads to a match.
\<close>

fun literal :: "string \<Rightarrow> string \<Rightarrow> string option" where
  "literal [] s = Some s"
| "literal (p # ps) [] = None"
| "literal (p # ps) (c # cs) = (if toLowerChar c = p then literal ps cs else None)"

definition spaces1 :: "string \<Rightarrow> string option" where
  "spaces1 s = (if takeWhile isWhiteSpace s = [] then None else Some (dropWhile isWhiteSpace s))"

definition digits1 :: "string \<Rightarrow> (string \<times> string) option" where
  "digits1 s = (if takeWhile isDigit s = [] then None
                else Some (takeWhile isDigit s, dropWhile isDigit s))"

definition isDigitOrDot :: "char \<Rightarrow> bool" where
  "isDigitOrDot c = (isDigit c \<or> c = CHR ''.'')"

definition number1 :: "string \<Rightarrow> (string \<times> string) option" where
  "number1 s = (if takeWhile isDigitOrDot s = [] then None
                else Some (takeWhile isDigitOrDot s, dropWhile isDigitOrDot s))"

section \<open>Numbers\<close>

text \<open>
  A Number is an IEEE 754 double, modelled by the real it denotes. An arithmetic operation
  returns the double nearest to the exact result, a tie going to the double whose
  significand is even. \<open>exponentOf x\<close> is the exponent \<open>e\<close> of the binade of a non-negative
  \<open>x\<close>, with \<open>2 ^ e \<le> x < 2 ^ (e + 1)\<close>, kept between -1022 (also for the subnormal numbers)
  and 1023; it is found by walking up or down from 0. The doubles of that binade are the
  multiples of \<open>ulp x = 2 ^ (e - 52)\<close>, and \<open>roundDouble\<close> rounds to the nearest of them.
  Overflow to infinity does not arise for the products of this program, which stay below 16.
\<close>

definition roundEven :: "real \<Rightarrow> int" where
  "roundEven y =
     (let n = \<lfloor>y\<rfloor> in
      if y - of_int n < 1/2 then n
      else if 1/2 < y - of_int n then n + 1
      else if even n then n else n + 1)"

fun exponentUp :: "nat \<Rightarrow> real \<Rightarrow> int \<Rightarrow> int" where
  "exponentUp 0 x e = e"
| "exponentUp (Suc n) x e = (if x < 2 powi (e + 1) then e else exponentUp n x (e + 1))"

fun exponentDown :: "nat \<Rightarrow> real \<Rightarrow> int \<Rightarrow> int" where
  "exponentDown 0 x e = e"
| "exponentDown (Suc n) x e = (if 2 powi e \<le> x then e else exponentDown n x (e - 1))"

definition exponentOf :: "real \<Rightarrow> int" where
  "exponentOf x = (if 1 \<le> x then exponentUp 1023 x 0 else exponentDown 1021 x (-1))"

definition ulp :: "real \<Rightarrow> real" where
  "ulp x = 2 powi (exponentOf x - 52)"

definition roundDouble :: "real \<Rightarrow> real" where
  "roundDouble x = of_int (roundEven (x / ulp x)) * ulp x"

text \<open>A real is a double when rounding leaves it unchanged; \<open>a * b\<close> is the rounded product.\<close>

definition isDouble :: "real \<Rightarrow> bool" where
  "isDouble x = (roundDouble x = x)"

definition jsMultiply :: "real \<Rightarrow> real \<Rightarrow> real" where
  "jsMultiply a b = roundDouble (a * b)"

section \<open>Data model (shared/schema.ts)\<close>

text \<open>
  A row of \<open>compliance_rules\<close>. The columns \<open>id\<close>, \<open>category\<close> and \<open>description\<close> are
  the fields \<open>rule_id\<close>, \<open>rule_category\<close> and \<open>rule_description\<close>; a nullable column is
  an \<open>option\<close>.
\<close>

record ComplianceRule =
  rule_id :: nat
  keyword :: string
  allowed :: bool
  riskScore :: "int option"
  rule_category :: "string option"
  rule_description :: "string option"

datatype ComplianceStatus = Compliant | NonCompliant | ReviewNeeded

text \<open>The objects \<open>{title, description}\<close> and \<open>{issue, rule, description}\<close> of an analysis.\<close>

record Recommendation =
  title :: string
  description :: string

record ComplianceIssue =
  issue :: string
  issue_rule :: "string option"
  issue_description :: string

text \<open>
  The object returned by \<open>basicClauseAnalysis\<close> and by \<open>analyzeClauseWithAI\<close>. A category
  read past the end of the category array would be \<open>undefined\<close>, hence the \<open>option\<close>.
\<close>

record Analysis =
  compliance_status :: ComplianceStatus
  risk_score :: int
  category :: "string option"
  recommendations :: "Recommendation list"
  compliance_issues :: "ComplianceIssue list"

text \<open>
  A clause to insert (\<open>InsertClause\<close>) and a row of \<open>clauses\<close> (\<open>Clause\<close>, with its
  serial \<open>id\<close>). Both share the columns of \<open>ClauseFields\<close>; the columns \<open>section\<close>,
  \<open>category\<close>, \<open>risk_score\<close> and \<open>compliance_status\<close> carry the prefix \<open>clause_\<close>. The object that
  \<open>analyzeDocument\<close> builds may carry the two extra properties of \<open>InsertClause\<close>.
\<close>

record ClauseFields =
  clause :: string
  clause_section :: "string option"
  page :: "nat option"
  clause_category :: "string option"
  clause_risk_score :: int
  clause_compliance_status :: ComplianceStatus
  document_id :: string
  completed :: "bool option"

record InsertClause = ClauseFields +
  clause_recommendations :: "Recommendation list option"
  clause_compliance_issues :: "ComplianceIssue list option"

record Clause = ClauseFields +
  clause_id :: nat

text \<open>The entries of \<open>fees\<close> and \<open>rateCard\<close>, and a contract summary.\<close>

record Fee =
  name :: string
  amount :: string
  frequency :: "string option"
  fee_description :: "string option"
  fee_category :: "string option"

record RateCardItem =
  item :: string
  rate :: string
  unit :: "string option"

record ContractSummary =
  documentId :: string
  summary_title :: "string option"
  parties :: "(string option \<times> string option) option"
  effectiveDate :: "string option"
  termLength :: "string option"
  paymentTerms :: "string list option"
  rateCard :: "RateCardItem list option"
  fees :: "Fee list option"
  keyObligations :: "string list option"
  confidentialityTerms :: "string option"
  terminationClauses :: "string list option"

section \<open>Rule matching and the heuristic clause analysis (contractAnalyzer.ts)\<close>

text \<open>The entries \<open>{rule, isViolation}\<close> pushed onto \<open>matches\<close>.\<close>

record RuleMatch =
  rule :: ComplianceRule
  isViolation :: bool

text \<open>
  The \<open>rules.forEach\<close> loop of \<open>basicClauseAnalysis\<close>: every rule whose lower-cased
  keyword is included in the lower-cased clause text (the test \<open>keywordFound\<close>) is pushed,
  in the order of the rule list.
\<close>

definition keywordFound :: "string \<Rightarrow> ComplianceRule \<Rightarrow> bool" where
  "keywordFound clauseText r = includesStr (toLowerCase clauseText) (toLowerCase (keyword r))"

fun matchRules :: "string \<Rightarrow> ComplianceRule list \<Rightarrow> RuleMatch list" where
  "matchRules clauseText [] = []"
| "matchRules clauseText (r # rules) =
     (if keywordFound clauseText r
      then \<lparr>rule = r, isViolation = \<not> allowed r\<rparr> # matchRules clauseText rules
      else matchRules clauseText rules)"

text \<open>
  Each call of \<open>Math.random()\<close> yields a Number in \<open>[0, 1)\<close>. The three calls of
  \<open>basicClauseAnalysis\<close> (status coin, base risk, random category) are parameters of the
  model. \<open>validDraws\<close> states the range of the draws, and \<open>machineDraws\<close> states all that
  \<open>Math.random\<close> guarantees: each draw is a double of that range.
\<close>

record Draws =
  statusDraw :: real
  riskDraw :: real
  categoryDraw :: real

definition validDraw :: "real \<Rightarrow> bool" where
  "validDraw r = (0 \<le> r \<and> r < 1)"

definition validDraws :: "Draws \<Rightarrow> bool" where
  "validDraws d = (validDraw (statusDraw d) \<and> validDraw (riskDraw d) \<and> validDraw (categoryDraw d))"

definition isRandomNumber :: "real \<Rightarrow> bool" where
  "isRandomNumber r = (isDouble r \<and> 0 \<le> r \<and> r < 1)"

definition machineDraws :: "Draws \<Rightarrow> bool" where
  "machineDraws d =
     (isRandomNumber (statusDraw d) \<and> isRandomNumber (riskDraw d) \<and> isRandomNumber (categoryDraw d))"

definition categories :: "string list" where
  "categories = [''Liability'', ''IP Rights'', ''Confidentiality'', ''Payment Terms'',
                 ''Termination'', ''Indemnification'']"

definition determineStatus :: "RuleMatch list \<Rightarrow> real \<Rightarrow> ComplianceStatus" where
  "determineStatus matches coin =
     (let violations = filter isViolation matches in
      if length violations > 0 then NonCompliant
      else if length matches > 0 then (if coin > 0.5 then Compliant else ReviewNeeded)
      else Compliant)"

definition adjustRisk :: "ComplianceStatus \<Rightarrow> int \<Rightarrow> int" where
  "adjustRisk complianceStatus base =
     (if complianceStatus = NonCompliant then max 7 base
      else if complianceStatus = ReviewNeeded then max 4 (min 6 base)
      else min 3 base)"

definition determineCategory :: "string \<Rightarrow> real \<Rightarrow> string option" where
  "determineCategory clauseText r =
     (let lc = toLowerCase clauseText in
      if includesStr lc ''confiden'' then Some ''Confidentiality''
      else if includesStr lc ''terminat'' then Some ''Termination''
      else if includesStr lc ''payment'' \<or> includesStr lc ''fee'' then Some ''Payment Terms''
      else if includesStr lc ''liab'' then Some ''Liability''
      else if includesStr lc ''intellectual'' \<or> includesStr lc ''property'' then Some ''IP Rights''
      else if includesStr lc ''indemnif'' then Some ''Indemnification''
      else arrayAt categories \<lfloor>jsMultiply r (real (length categories))\<rfloor>)"

definition quoted :: "string \<Rightarrow> string" where
  "quoted s = [CHR 0x22] @ s @ [CHR 0x22]"

definition makeRecommendations :: "ComplianceStatus \<Rightarrow> RuleMatch list \<Rightarrow> Recommendation list" where
  "makeRecommendations complianceStatus violations =
     (if complianceStatus = NonCompliant then
        [\<lparr>title = ''Remove non-compliant language'',
          description = ''This clause contains non-compliant language related to ''
            @ join '', '' (map (\<lambda>v. keyword (rule v)) violations)
            @ ''. Consider revising or removing.''\<rparr>]
      else if complianceStatus = ReviewNeeded then
        [\<lparr>title = ''Review clause carefully'',
          description = ''This clause contains language that may require further review by legal experts.''\<rparr>]
      else [])"

definition makeIssue :: "RuleMatch \<Rightarrow> ComplianceIssue" where
  "makeIssue v =
     \<lparr>issue = ''Non-compliant use of '' @ quoted (keyword (rule v)),
      issue_rule = Some (keyword (rule v)),
      issue_description =
        (case rule_description (rule v) of
           Some d \<Rightarrow> if d = [] then ''The use of '' @ quoted (keyword (rule v)) @ '' violates compliance rules.'' else d
         | None \<Rightarrow> ''The use of '' @ quoted (keyword (rule v)) @ '' violates compliance rules.'')\<rparr>"

text \<open>
  \<open>basicClauseAnalysis(clauseText, rules, section)\<close>. The section is a parameter the body
  never reads, as in the source.
\<close>

definition basicClauseAnalysis ::
    "string \<Rightarrow> ComplianceRule list \<Rightarrow> string option \<Rightarrow> Draws \<Rightarrow> Analysis" where
  "basicClauseAnalysis clauseText rules section d =
     (let matches = matchRules clauseText rules;
          violations = filter isViolation matches;
          complianceStatus = determineStatus matches (statusDraw d);
          base = \<lfloor>jsMultiply (riskDraw d) 10\<rfloor>
      in \<lparr>compliance_status = complianceStatus,
          risk_score = adjustRisk complianceStatus base,
          category = determineCategory clauseText (categoryDraw d),
          recommendations = makeRecommendations complianceStatus violations,
          compliance_issues = map makeIssue violations\<rparr>)"

section \<open>The heuristic segmenter (contractAnalyzer.ts)\<close>

text \<open>
  \<open>/\n\s*\n/\<close> anchored at a line feed \<open>c\<close>: the greedy \<open>\s*\<close> takes the whole run of
  white space that follows and gives characters back until a line feed closes the match, so
  the match ends at the last line feed of that run. \<open>afterLastNewline run\<close> is the number of
  characters of the run up to and including that line feed.
\<close>

fun afterLastNewline :: "string \<Rightarrow> nat option" where
  "afterLastNewline [] = None"
| "afterLastNewline (c # cs) =
     (case afterLastNewline cs of
        Some k \<Rightarrow> Some (Suc k)
      | None \<Rightarrow> if c = CHR 0x0A then Some 1 else None)"

definition blankLineMatch :: "char \<Rightarrow> string \<Rightarrow> nat option" where
  "blankLineMatch c cs =
     (if c = CHR 0x0A then afterLastNewline (takeWhile isWhiteSpace cs) else None)"

text \<open>\<open>/\.\s+/\<close> anchored at a full stop: the stop and the whole run of white space after it.\<close>

definition sentenceEndMatch :: "char \<Rightarrow> string \<Rightarrow> nat option" where
  "sentenceEndMatch c cs =
     (if c = CHR ''.'' \<and> takeWhile isWhiteSpace cs \<noteq> []
      then Some (length (takeWhile isWhiteSpace cs)) else None)"

definition paragraphsOf :: "string \<Rightarrow> string list" where
  "paragraphsOf text = splitBy blankLineMatch [] text"

definition sentencesOf :: "string \<Rightarrow> string list" where
  "sentencesOf text = splitBy sentenceEndMatch [] text"

definition splitTextIntoClauses :: "string \<Rightarrow> string list" where
  "splitTextIntoClauses text =
     (let paragraphs = paragraphsOf text;
          clauses = filter (\<lambda>p. length (trim p) > 50) paragraphs
      in if length clauses = 0
         then filter (\<lambda>s. length s > 50) (sentencesOf text)
         else clauses)"

section \<open>Analysis with the model, and the document loop (openai.ts, contractAnalyzer.ts)\<close>

text \<open>
  What the call of the model gives for one clause is a parameter: the request fails, the
  reply has no content, the content is not JSON, or it parses to an object whose properties
  may be missing (\<open>None\<close>). A thrown exception is a value \<open>Inl\<close> of \<open>jsError\<close>.
\<close>

datatype jsError = JsError string

record AiResult =
  ai_compliance_status :: "ComplianceStatus option"
  ai_risk_score :: "int option"
  ai_category :: "string option"
  ai_recommendations :: "Recommendation list option"
  ai_compliance_issues :: "ComplianceIssue list option"

datatype AiReply = CallFailed | NoContent | InvalidJson | Json AiResult

text \<open>\<open>v || d\<close> on a string that may be missing, and on a number.\<close>

definition orString :: "string option \<Rightarrow> string \<Rightarrow> string" where
  "orString v d = (case v of None \<Rightarrow> d | Some s \<Rightarrow> if s = [] then d else s)"

definition orNumber :: "int option \<Rightarrow> int \<Rightarrow> int" where
  "orNumber v d = (case v of None \<Rightarrow> d | Some n \<Rightarrow> if n = 0 then d else n)"

text \<open>The \<open>try\<close> block of \<open>analyzeClauseWithAI\<close>.\<close>

definition aiReplyAnalysis :: "AiReply \<Rightarrow> string option \<Rightarrow> jsError + Analysis" where
  "aiReplyAnalysis reply section =
     (case reply of
        CallFailed \<Rightarrow> Inl (JsError ''request failed'')
      | NoContent \<Rightarrow> Inl (JsError ''No content in response'')
      | InvalidJson \<Rightarrow> Inl (JsError ''SyntaxError'')
      | Json result \<Rightarrow>
          Inr \<lparr>compliance_status =
                  (case ai_compliance_status result of Some st \<Rightarrow> st | None \<Rightarrow> ReviewNeeded),
               risk_score = orNumber (ai_risk_score result) 5,
               category = Some (orString (ai_category result) (orString section ''General'')),
               recommendations = (case ai_recommendations result of Some rs \<Rightarrow> rs | None \<Rightarrow> []),
               compliance_issues = (case ai_compliance_issues result of Some ci \<Rightarrow> ci | None \<Rightarrow> [])\<rparr>)"

text \<open>The object returned by its \<open>catch\<close> block.\<close>

definition aiFailedAnalysis :: "string option \<Rightarrow> Analysis" where
  "aiFailedAnalysis section =
     \<lparr>compliance_status = ReviewNeeded,
      risk_score = 5,
      category = Some (orString section ''General''),
      recommendations =
        [\<lparr>title = ''AI Analysis Failed'',
          description = ''The automated analysis could not be completed. Please review this clause manually.''\<rparr>],
      compliance_issues = []\<rparr>"

definition analyzeClauseWithAI ::
    "AiReply \<Rightarrow> string \<Rightarrow> ComplianceRule list \<Rightarrow> string option \<Rightarrow> jsError + Analysis" where
  "analyzeClauseWithAI reply clauseText rules section =
     (case aiReplyAnalysis reply section of
        Inr analysis \<Rightarrow> Inr analysis
      | Inl err \<Rightarrow> Inr (aiFailedAnalysis section))"

text \<open>
  What one turn of the loop of \<open>analyzeDocument\<close> draws and receives: the draw for the
  section label, the reply of the model, and the draws of the heuristic analysis.
\<close>

record ClauseRun =
  sectionDraw :: real
  aiReply :: AiReply
  analysisDraws :: Draws

definition sampleSections :: "string list" where
  "sampleSections = [''1.1'', ''2.3'', ''3.5'', ''4.2'', ''5.7'', ''6.1'', ''7.4'', ''8.3'', ''9.1'']"

text \<open>
  The analysis chosen in the loop body: with an API key the model is asked, and the
  \<open>catch\<close> around that call falls back to \<open>basicClauseAnalysis\<close>; without a key the
  heuristic analysis is used directly.
\<close>

definition clauseAnalysis ::
    "bool \<Rightarrow> ClauseRun \<Rightarrow> string \<Rightarrow> ComplianceRule list \<Rightarrow> string option \<Rightarrow> Analysis" where
  "clauseAnalysis apiKey run clauseText rules section =
     (if apiKey then
        (case analyzeClauseWithAI (aiReply run) clauseText rules section of
           Inr analysis \<Rightarrow> analysis
         | Inl aiError \<Rightarrow> basicClauseAnalysis clauseText rules section (analysisDraws run))
      else basicClauseAnalysis clauseText rules section (analysisDraws run))"

definition analyzedClause ::
    "bool \<Rightarrow> ClauseRun \<Rightarrow> ComplianceRule list \<Rightarrow> string \<Rightarrow> nat \<Rightarrow> string \<Rightarrow> InsertClause" where
  "analyzedClause apiKey run rules docId i clauseText =
     (let section = arrayAt sampleSections
                      \<lfloor>jsMultiply (sectionDraw run) (real (length sampleSections))\<rfloor>;
          analysis = clauseAnalysis apiKey run clauseText rules section
      in \<lparr>clause = clauseText,
          clause_section = section,
          page = Some (i div 4 + 1),
          clause_category = category analysis,
          clause_risk_score = risk_score analysis,
          clause_compliance_status = compliance_status analysis,
          document_id = docId,
          completed = None,
          clause_recommendations =
            (if length (recommendations analysis) > 0 then Some (recommendations analysis) else None),
          clause_compliance_issues =
            (if length (compliance_issues analysis) > 0 then Some (compliance_issues analysis) else None)\<rparr>)"

fun analyzeFrom ::
    "bool \<Rightarrow> (nat \<Rightarrow> ClauseRun) \<Rightarrow> ComplianceRule list \<Rightarrow> string \<Rightarrow> nat \<Rightarrow> string list \<Rightarrow> InsertClause list" where
  "analyzeFrom apiKey runs rules docId i [] = []"
| "analyzeFrom apiKey runs rules docId i (clauseText # rest) =
     analyzedClause apiKey (runs i) rules docId i clauseText
       # analyzeFrom apiKey runs rules docId (Suc i) rest"

definition analyzeDocument ::
    "bool \<Rightarrow> (nat \<Rightarrow> ClauseRun) \<Rightarrow> string list \<Rightarrow> ComplianceRule list \<Rightarrow> string \<Rightarrow> InsertClause list" where
  "analyzeDocument apiKey runs clauses rules docId = analyzeFrom apiKey runs rules docId 0 clauses"

section \<open>Incremental extraction (routes.ts)\<close>

subsection \<open>Maps and sets of the language\<close>





definition setAdd :: "'a \<Rightarrow> 'a list \<Rightarrow> 'a list" where
  "setAdd x xs = (if x \<in> set xs then xs else xs @ [x])"

definition newSet :: "'a list \<Rightarrow> 'a list" where
  "newSet xs = foldl (\<lambda>s x. setAdd x s) [] xs"

subsection \<open>The merge of the extract-fees route\<close>





subsection \<open>basicPaymentTermExtraction\<close>

definition isPaymentRelated :: "string \<Rightarrow> bool" where
  "isPaymentRelated clauseText =
     (includesStr (toLowerCase clauseText) ''payment'' \<or>
      includesStr (toLowerCase clauseText) ''invoice'' \<or>
      includesStr (toLowerCase clauseText) ''net'' \<or>
      includesStr (toLowerCase clauseText) ''due'' \<or>
      includesStr (toLowerCase clauseText) ''paid'' \<or>
      includesStr (toLowerCase clauseText) ''pay within'')"

text \<open>
  The four patterns, anchored. The trailing \<open>s?\<close> of \<open>days?\<close> ends each pattern and changes
  neither whether it matches nor the capture. In \<open>pay(?:ment)?\<close> and in the alternations the
  choices exclude one another at a given position (after \<open>pay\<close> the text continues with
  \<open>ment\<close> or with white space; \<open>within\<close> and \<open>in\<close>, and \<open>fee\<close>, \<open>payment\<close> and \<open>charge\<close>,
  start with different letters), so the first choice that matches is the only one.
\<close>

definition optionalLiteral :: "string \<Rightarrow> string \<Rightarrow> string" where
  "optionalLiteral p s = (case literal p s of Some r \<Rightarrow> r | None \<Rightarrow> s)"

fun oneOf :: "string list \<Rightarrow> string \<Rightarrow> string option" where
  "oneOf [] s = None"
| "oneOf (p # ps) s = (case literal p s of Some r \<Rightarrow> Some r | None \<Rightarrow> oneOf ps s)"

definition netDaysAt :: "string \<Rightarrow> string option" where
  "netDaysAt s =
     do { s1 \<leftarrow> literal ''net'' s;
          s2 \<leftarrow> spaces1 s1;
          (n, s3) \<leftarrow> digits1 s2;
          s4 \<leftarrow> spaces1 s3;
          s5 \<leftarrow> literal ''day'' s4;
          Some n }"

definition payWithinAt :: "string \<Rightarrow> string option" where
  "payWithinAt s =
     do { s1 \<leftarrow> literal ''pay'' s;
          s2 \<leftarrow> spaces1 (optionalLiteral ''ment'' s1);
          s3 \<leftarrow> literal ''within'' s2;
          s4 \<leftarrow> spaces1 s3;
          (n, s5) \<leftarrow> digits1 s4;
          s6 \<leftarrow> spaces1 s5;
          s7 \<leftarrow> literal ''day'' s6;
          Some n }"

definition dueAt :: "string \<Rightarrow> string option" where
  "dueAt s =
     do { s1 \<leftarrow> literal ''due'' s;
          s2 \<leftarrow> spaces1 s1;
          s3 \<leftarrow> oneOf [''within'', ''in''] s2;
          s4 \<leftarrow> spaces1 s3;
          (n, s5) \<leftarrow> digits1 s4;
          s6 \<leftarrow> spaces1 s5;
          s7 \<leftarrow> literal ''day'' s6;
          Some n }"

text \<open>
  The capture \<open>([0-9\.]+%|[0-9\.]+\s+percent)\<close>: the number and the percent sign, or else the
  matched text from the number to the end of the word.
\<close>

definition percentAmount :: "string \<Rightarrow> string option" where
  "percentAmount s =
     do { (num, r) \<leftarrow> number1 s;
          (case literal ''%'' r of
             Some r1 \<Rightarrow> Some (num @ ''%'')
           | None \<Rightarrow>
               do { r2 \<leftarrow> spaces1 r;
                    r3 \<leftarrow> literal ''percent'' r2;
                    Some (take (length s - length r3) s) }) }"

definition lateFeeAt :: "string \<Rightarrow> string option" where
  "lateFeeAt s =
     do { s1 \<leftarrow> literal ''late'' s;
          s2 \<leftarrow> spaces1 s1;
          s3 \<leftarrow> oneOf [''fee'', ''payment'', ''charge''] s2;
          s4 \<leftarrow> spaces1 s3;
          s5 \<leftarrow> literal ''of'' s4;
          s6 \<leftarrow> spaces1 s5;
          percentAmount s6 }"

text \<open>The callback of \<open>paymentRelatedClauses.map\<close>; \<open>null\<close> is \<open>None\<close>.\<close>

definition paymentTermOf :: "string \<Rightarrow> string option" where
  "paymentTermOf clauseText =
     (let clause_text = toLowerCase clauseText;
          net_days_match = regexSearch netDaysAt clause_text;
          pay_within_match = regexSearch payWithinAt clause_text;
          due_match = regexSearch dueAt clause_text;
          late_fee_match = regexSearch lateFeeAt clause_text
      in if net_days_match \<noteq> None \<or> pay_within_match \<noteq> None \<or> due_match \<noteq> None
            \<or> late_fee_match \<noteq> None
         then
           if length clauseText \<le> 100 then Some clauseText
           else (case net_days_match of
                   Some n \<Rightarrow> Some (''Payment terms: Net '' @ n @ '' days.'')
                 | None \<Rightarrow>
               (case pay_within_match of
                   Some n \<Rightarrow> Some (''Payment due within '' @ n @ '' days.'')
                 | None \<Rightarrow>
               (case due_match of
                   Some n \<Rightarrow> Some (''Payment due within '' @ n @ '' days.'')
                 | None \<Rightarrow>
               (case late_fee_match of
                   Some a \<Rightarrow> Some (''Late payment fee of '' @ a @ '' applies.'')
                 | None \<Rightarrow> None))))
         else None)"

text \<open>The test \<open>net_days_match || pay_within_match || due_match || late_fee_match\<close>.\<close>

definition matchesPaymentPattern :: "string \<Rightarrow> bool" where
  "matchesPaymentPattern clauseText =
     (regexSearch netDaysAt (toLowerCase clauseText) \<noteq> None \<or>
      regexSearch payWithinAt (toLowerCase clauseText) \<noteq> None \<or>
      regexSearch dueAt (toLowerCase clauseText) \<noteq> None \<or>
      regexSearch lateFeeAt (toLowerCase clauseText) \<noteq> None)"

text \<open>\<open>.filter(Boolean)\<close> drops \<open>null\<close> and the empty string.\<close>

fun filterBoolean :: "string option list \<Rightarrow> string list" where
  "filterBoolean [] = []"
| "filterBoolean (None # xs) = filterBoolean xs"
| "filterBoolean (Some s # xs) = (if s = [] then filterBoolean xs else s # filterBoolean xs)"

definition basicPaymentTermExtraction :: "Clause list \<Rightarrow> string list" where
  "basicPaymentTermExtraction clauses =
     (let paymentRelatedClauses = filter (\<lambda>c. isPaymentRelated (clause c)) clauses;
          extractedTerms = filterBoolean (map (\<lambda>c. paymentTermOf (clause c)) paymentRelatedClauses)
      in newSet extractedTerms)"

section \<open>Clause storage and the upload route (storage.ts, routes.ts)\<close>

text \<open>
  The table of clauses with its serial counter: the rows in order of insertion and the next
  id, which starts at 1. Every call of the storage may throw (the exported storage is the
  database one); which calls throw during one request is a parameter of the route.
\<close>

record Storage =
  clausesList :: "Clause list"
  clauseCurrentId :: nat

definition emptyStorage :: Storage where
  "emptyStorage = \<lparr>clausesList = [], clauseCurrentId = 1\<rparr>"

definition getAllClauses :: "Storage \<Rightarrow> Clause list" where
  "getAllClauses st = clausesList st"

definition getClausesByDocumentId :: "string \<Rightarrow> Storage \<Rightarrow> Clause list" where
  "getClausesByDocumentId docId st = filter (\<lambda>c. document_id c = docId) (clausesList st)"

definition createClause :: "InsertClause \<Rightarrow> Storage \<Rightarrow> Storage" where
  "createClause ins st =
     st\<lparr>clausesList := clausesList st @
           [\<lparr>clause = clause ins, clause_section = clause_section ins, page = page ins,
             clause_category = clause_category ins, clause_risk_score = clause_risk_score ins,
             clause_compliance_status = clause_compliance_status ins,
             document_id = document_id ins, completed = completed ins,
             clause_id = clauseCurrentId st\<rparr>],
        clauseCurrentId := Suc (clauseCurrentId st)\<rparr>"

definition deleteClause :: "nat \<Rightarrow> Storage \<Rightarrow> Storage" where
  "deleteClause i st = st\<lparr>clausesList := filter (\<lambda>c. clause_id c \<noteq> i) (clausesList st)\<rparr>"

text \<open>
  The route handler is an \<open>async\<close> function: at every \<open>await\<close> it yields, and other requests
  (another upload, a reset, an insertion) may run on the same storage before it resumes.
  What they do to the table of clauses between two steps of this request is a function on
  the storage, a parameter of the model; each storage call is one step of its own.
\<close>

type_synonym Interference = "Storage \<Rightarrow> Storage"

text \<open>
  The loop \<open>for (const clause of existingClauses) if (clause.id) await deleteClause(clause.id)\<close>.
  \<open>fault = Some k\<close> makes the \<open>k\<close>-th storage call of the reset block throw; the loop
  then stops with the rows deleted so far gone. \<open>others k\<close> is what other requests do while
  the \<open>k\<close>-th call is awaited.
\<close>

fun deleteEach :: "nat option \<Rightarrow> (nat \<Rightarrow> Interference) \<Rightarrow> nat \<Rightarrow> Clause list \<Rightarrow> Storage
                     \<Rightarrow> jsError option \<times> Storage" where
  "deleteEach fault others k [] st = (None, st)"
| "deleteEach fault others k (c # cs) st =
     (if clause_id c \<noteq> 0 then
        (if fault = Some k then (Some (JsError ''storage''), others k st)
         else deleteEach fault others (Suc k) cs (others k (deleteClause (clause_id c) st)))
      else deleteEach fault others k cs st)"

text \<open>
  The body of the \<open>try\<close> of the reset block: call 0 is \<open>getAllClauses\<close>, whose result is the
  list that the loop walks, whatever happens to the table afterwards.
\<close>

definition resetClauses :: "nat option \<Rightarrow> (nat \<Rightarrow> Interference) \<Rightarrow> Storage
                             \<Rightarrow> jsError option \<times> Storage" where
  "resetClauses fault others st =
     (if fault = Some 0 then (Some (JsError ''storage''), others 0 st)
      else deleteEach fault others 1 (getAllClauses st) (others 0 st))"

text \<open>The loop that stores the analysed clauses with \<open>completed: false\<close>.\<close>

fun createEach :: "nat option \<Rightarrow> (nat \<Rightarrow> Interference) \<Rightarrow> nat \<Rightarrow> InsertClause list \<Rightarrow> Storage
                     \<Rightarrow> jsError option \<times> Storage" where
  "createEach fault others k [] st = (None, st)"
| "createEach fault others k (c # cs) st =
     (if fault = Some k then (Some (JsError ''storage''), others k st)
      else createEach fault others (Suc k) cs
             (others k (createClause (c\<lparr>completed := Some False\<rparr>) st)))"

text \<open>
  What one upload request meets: whether a file came with it, which storage call of the
  reset block throws (if any), what \<open>extractClauses\<close> and \<open>getAllComplianceRules\<close> give,
  the API key and the per-clause runs of the analysis, which \<open>createClause\<close> call throws
  (if any), and whether the steps after the insertion (financial extraction and the
  creation of the summary, which do not touch the clauses) throw; and what other requests
  do to the storage meanwhile: during the awaits of the reset block, during those of the
  extraction, of the reading of the rules and of the analysis, during those of the
  insertion, and during those of the summary.
\<close>

record UploadRun =
  fileProvided :: bool
  resetFault :: "nat option"
  extractedClauses :: "jsError + string list"
  storedRules :: "jsError + ComplianceRule list"
  apiKey :: bool
  clauseRuns :: "nat \<Rightarrow> ClauseRun"
  createFault :: "nat option"
  summaryFault :: "jsError option"
  duringReset :: "nat \<Rightarrow> Interference"
  duringAnalysis :: Interference
  duringInsert :: "nat \<Rightarrow> Interference"
  duringSummary :: Interference

datatype UploadResponse =
    NoFile400
  | Failed500 jsError
  | Analyzed200 string "InsertClause list"

text \<open>The handler; the storage it returns is the one at the moment the response is sent.\<close>

definition upload :: "UploadRun \<Rightarrow> string \<Rightarrow> Storage \<Rightarrow> UploadResponse \<times> Storage" where
  "upload run fileId st =
     (if \<not> fileProvided run then (NoFile400, st)
      else
        let st1 = snd (resetClauses (resetFault run) (duringReset run) st);
            st2 = duringAnalysis run st1
        in case extractedClauses run of
             Inl err \<Rightarrow> (Failed500 err, st2)
           | Inr extracted \<Rightarrow>
        (case storedRules run of
             Inl err \<Rightarrow> (Failed500 err, st2)
           | Inr rules \<Rightarrow>
        (let analyzedClauses = analyzeDocument (apiKey run) (clauseRuns run) extracted rules fileId;
             stored = createEach (createFault run) (duringInsert run) 0 analyzedClauses st2
         in case fst stored of
              Some err \<Rightarrow> (Failed500 err, snd stored)
            | None \<Rightarrow>
         (let st3 = duringSummary run (snd stored)
          in case summaryFault run of
               Some err \<Rightarrow> (Failed500 err, st3)
             | None \<Rightarrow> (Analyzed200 fileId analyzedClauses, st3)))))"

definition succeeded :: "UploadResponse \<Rightarrow> bool" where
  "succeeded r = (case r of Analyzed200 d cs \<Rightarrow> True | _ \<Rightarrow> False)"

text \<open>
  The counter starts at 1 and only grows, and the ids in the table are serial numbers
  already handed out: positive and below the counter.
\<close>

definition storageInv :: "Storage \<Rightarrow> bool" where
  "storageInv st =
     (0 < clauseCurrentId st \<and>
      (\<forall>c \<in> set (clausesList st). 0 < clause_id c \<and> clause_id c < clauseCurrentId st))"

section \<open>Example data\<close>

text \<open>The rules that the \<open>MemStorage\<close> constructor creates (storage.ts).\<close>

definition seedRule :: "nat \<Rightarrow> string \<Rightarrow> bool \<Rightarrow> ComplianceRule" where
  "seedRule i k a = \<lparr>rule_id = i, keyword = k, allowed = a, riskScore = None,
                      rule_category = None, rule_description = None\<rparr>"

definition seedRules :: "ComplianceRule list" where
  "seedRules = [seedRule 1 ''Non-disclosure agreement'' True,
                seedRule 2 ''Liability clause'' False,
                seedRule 3 ''Intellectual property rights'' True]"

text \<open>A stored clause, one run of the loop of \<open>analyzeDocument\<close>, and two documents.\<close>

definition exampleClause :: "nat \<Rightarrow> string \<Rightarrow> string \<Rightarrow> Clause" where
  "exampleClause i docId clauseText =
     \<lparr>clause = clauseText, clause_section = None, page = Some 1, clause_category = None,
      clause_risk_score = 5, clause_compliance_status = ReviewNeeded, document_id = docId,
      completed = Some False, clause_id = i\<rparr>"

definition exampleRun :: ClauseRun where
  "exampleRun = \<lparr>sectionDraw = 1/3, aiReply = CallFailed,
                  analysisDraws = \<lparr>statusDraw = 1/4, riskDraw = 1/2, categoryDraw = 3/4\<rparr>\<rparr>"

definition shortParagraphs :: string where
  "shortParagraphs = ''Payment is due on receipt.'' @ [CHR 0x0A, CHR 0x0A]
     @ ''Either party may terminate.'' @ [CHR 0x0A, CHR 0x0A] @ ''Governing law is Delaware.''"

definition exampleDocument :: string where
  "exampleDocument = ''Service Agreement'' @ [CHR 0x0A, CHR 0x0A]
     @ ''This Agreement may be terminated by either party with thirty (30) days written notice. Upon termination, all licenses granted herein shall immediately terminate.''"

text \<open>
  An upload whose reset block throws at its first storage call while every later step
  succeeds, and a storage that holds one clause of an earlier document.
\<close>

definition faultyResetRun :: UploadRun where
  "faultyResetRun =
     \<lparr>fileProvided = True, resetFault = Some 0,
      extractedClauses = Inr [''Either party may terminate this agreement with thirty days notice.''],
      storedRules = Inr seedRules, apiKey = False, clauseRuns = (\<lambda>i. exampleRun),
      createFault = None, summaryFault = None,
      duringReset = (\<lambda>k st. st), duringAnalysis = (\<lambda>st. st),
      duringInsert = (\<lambda>k st. st), duringSummary = (\<lambda>st. st)\<rparr>"

text \<open>
  Two uploads that overlap, every step of both succeeding. The first one, of the document
  \<open>1700000000001\<close>, has finished its reset block when the second one starts, and inserts its
  analysed clause while the second one awaits its own analysis. \<open>overlappedRun\<close> is the
  second upload; the insertion loop of the first is what happens during its analysis.
\<close>

definition otherUploadInserts :: Interference where
  "otherUploadInserts st =
     snd (createEach None (\<lambda>k st. st) 0
            (analyzeDocument False (\<lambda>i. exampleRun)
               [''The supplier shall deliver the goods within ten days of the order.'']
               seedRules ''1700000000001'') st)"

definition overlappedRun :: UploadRun where
  "overlappedRun = faultyResetRun\<lparr>resetFault := None, duringAnalysis := otherUploadInserts\<rparr>"

text \<open>
  An upload during whose reset block another request deletes the clause with id 1, every
  step succeeding.
\<close>

definition racedResetRun :: UploadRun where
  "racedResetRun = faultyResetRun\<lparr>resetFault := None, duringReset := (\<lambda>k. deleteClause 1)\<rparr>"

definition oldStorage :: Storage where
  "oldStorage = \<lparr>clausesList = [exampleClause 1 ''1700000000000'' ''An earlier clause.''],
                  clauseCurrentId = 2\<rparr>"

section \<open>Specification vocabulary and auxiliary notions\<close>

text \<open>
  The specification's reading of the rule test: the keyword occurs in the clause text as a
  substring, up to the case of its letters. Some window of the text, as long as the keyword,
  equals the keyword once both are put in lower case.
\<close>

definition occursIgnoringCase :: "string \<Rightarrow> string \<Rightarrow> bool" where
  "occursIgnoringCase k s =
     (\<exists>i \<in> {0..length s}. i + length k \<le> length s \<and>
        toLowerCase (take (length k) (drop i s)) = toLowerCase k)"

text \<open>The entries \<open>[fee.name, fee]\<close> of a list of fees, and maps whose keys are the names of their fees.\<close>

definition feeEntries :: "Fee list \<Rightarrow> (string \<times> Fee) list" where
  "feeEntries fs = map (\<lambda>fee. (name fee, fee)) fs"

definition keyed :: "(string \<times> Fee) list \<Rightarrow> bool" where
  "keyed m = (\<forall>e \<in> set m. fst e = name (snd e))"

text \<open>
  Other requests leave no new or changed clause in the table when what they do between two
  steps of an upload only removes rows and never sets the serial counter back.
\<close>

definition removesOnly :: "Interference \<Rightarrow> bool" where
  "removesOnly f =
     (\<forall>st. set (clausesList (f st)) \<subseteq> set (clausesList st)
           \<and> clauseCurrentId st \<le> clauseCurrentId (f st))"

definition noInsertionMeanwhile :: "UploadRun \<Rightarrow> bool" where
  "noInsertionMeanwhile run =
     ((\<forall>k. removesOnly (duringReset run k)) \<and> removesOnly (duringAnalysis run)
      \<and> (\<forall>k. removesOnly (duringInsert run k)) \<and> removesOnly (duringSummary run))"

section \<open>Properties of the rule matcher\<close>

lemma startsWith_take: "startsWith s k \<longleftrightarrow> length k \<le> length s \<and> take (length k) s = k"
  by (induction s k rule: startsWith.induct) auto

lemma includesStr_take_drop:
  "includesStr s k \<longleftrightarrow> (\<exists>i. i + length k \<le> length s \<and> take (length k) (drop i s) = k)"
proof (induction s)
  case Nil
  then show ?case by auto
next
  case (Cons c cs)
  show ?case
  proof
    assume "includesStr (c # cs) k"
    then consider "startsWith (c # cs) k" | "includesStr cs k" by auto
    then show "\<exists>i. i + length k \<le> length (c # cs) \<and> take (length k) (drop i (c # cs)) = k"
    proof cases
      case 1
      then have "0 + length k \<le> length (c # cs) \<and> take (length k) (drop 0 (c # cs)) = k"
        by (simp add: startsWith_take)
      then show ?thesis by blast
    next
      case 2
      with Cons obtain i where "i + length k \<le> length cs" "take (length k) (drop i cs) = k"
        by auto
      then have "Suc i + length k \<le> length (c # cs) \<and> take (length k) (drop (Suc i) (c # cs)) = k"
        by simp
      then show ?thesis by blast
    qed
  next
    assume "\<exists>i. i + length k \<le> length (c # cs) \<and> take (length k) (drop i (c # cs)) = k"
    then obtain i where i: "i + length k \<le> length (c # cs)" "take (length k) (drop i (c # cs)) = k"
      by blast
    show "includesStr (c # cs) k"
    proof (cases i)
      case 0
      with i have "startsWith (c # cs) k" by (simp add: startsWith_take)
      then show ?thesis by simp
    next
      case (Suc j)
      with i have "j + length k \<le> length cs \<and> take (length k) (drop j cs) = k" by simp
      with Cons have "includesStr cs k" by blast
      then show ?thesis by simp
    qed
  qed
qed

lemma keywordFound_iff: "keywordFound clauseText r \<longleftrightarrow> occursIgnoringCase (keyword r) clauseText"
  unfolding keywordFound_def occursIgnoringCase_def toLowerCase_def includesStr_take_drop
  by (auto simp: take_map drop_map)

lemma keywordFound_eq:
  "keywordFound clauseText = (\<lambda>r. occursIgnoringCase (keyword r) clauseText)"
  by (rule ext) (rule keywordFound_iff)

lemma matchRules_map_filter:
  "matchRules clauseText rules =
     map (\<lambda>r. \<lparr>rule = r, isViolation = \<not> allowed r\<rparr>) (filter (keywordFound clauseText) rules)"
  by (induction rules) auto

lemma matchRules_empty_iff:
  "matchRules clauseText rules = [] \<longleftrightarrow> \<not> (\<exists>r \<in> set rules. keywordFound clauseText r)"
  by (auto simp: matchRules_map_filter filter_empty_conv)

lemma violations_empty_iff:
  "filter isViolation (matchRules clauseText rules) = []
     \<longleftrightarrow> \<not> (\<exists>r \<in> set rules. keywordFound clauseText r \<and> \<not> allowed r)"
  by (auto simp: matchRules_map_filter filter_empty_conv)

text \<open>
  C4. The matcher returns, in the order of the rule list, exactly the rules whose keyword
  occurs in the clause text up to case: all of them, not only the first. Every returned
  pair has \<open>isViolation\<close> equal to the negation of the rule's \<open>allowed\<close> flag, and a rule
  of the list appears in the output if and only if its keyword occurs.
\<close>

theorem rule_matcher_case_insensitive:
  "map rule (matchRules clauseText rules) =
      filter (\<lambda>r. occursIgnoringCase (keyword r) clauseText) rules
   \<and> (\<forall>m \<in> set (matchRules clauseText rules). isViolation m = (\<not> allowed (rule m)))
   \<and> (\<forall>r \<in> set rules. (\<exists>m \<in> set (matchRules clauseText rules). rule m = r)
          \<longleftrightarrow> occursIgnoringCase (keyword r) clauseText)"
  by (auto simp: matchRules_map_filter keywordFound_eq comp_def image_iff)

theorem rule_matcher_case_insensitive_witness:
  "seedRule 2 ''Liability clause'' False \<in> set seedRules
   \<and> occursIgnoringCase (keyword (seedRule 2 ''Liability clause'' False))
         ''This LIABILITY Clause caps all damages.''
   \<and> (\<exists>m \<in> set (matchRules ''This LIABILITY Clause caps all damages.'' seedRules).
         rule m = seedRule 2 ''Liability clause'' False \<and> isViolation m)"
proof -
  have a: "seedRule 2 ''Liability clause'' False \<in> set seedRules"
    by (simp add: seedRules_def)
  have b: "occursIgnoringCase (keyword (seedRule 2 ''Liability clause'' False))
             ''This LIABILITY Clause caps all damages.''"
    by code_simp
  have c: "\<not> allowed (seedRule 2 ''Liability clause'' False)"
    by (simp add: seedRule_def)
  from rule_matcher_case_insensitive [of "''This LIABILITY Clause caps all damages.''" seedRules]
    a b c show ?thesis by metis
qed

text \<open>
  C5. The matched pairs do not depend on the order of the rule list: for a permutation of
  the rules the matcher returns the same set of pairs, and each pair as many times.
\<close>

theorem rule_matcher_order_independent:
  assumes "mset rules' = mset rules"
  shows "set (matchRules clauseText rules') = set (matchRules clauseText rules)
       \<and> mset (matchRules clauseText rules') = mset (matchRules clauseText rules)"
proof -
  have "mset (matchRules clauseText rules') = mset (matchRules clauseText rules)"
    using assms by (simp add: matchRules_map_filter)
  then show ?thesis by (metis set_mset_mset)
qed

theorem rule_matcher_order_independent_witness:
  "mset (rev seedRules) = mset seedRules
   \<and> set (matchRules ''The liability clause and the non-disclosure agreement.'' (rev seedRules))
     = set (matchRules ''The liability clause and the non-disclosure agreement.'' seedRules)"
proof -
  have h: "mset (rev seedRules) = mset seedRules" by simp
  from rule_matcher_order_independent [OF h] h show ?thesis by blast
qed

section \<open>Properties of the rounded product\<close>

lemma exponentUp_props:
  "2 powi e \<le> x \<Longrightarrow>
     e \<le> exponentUp n x e \<and> exponentUp n x e \<le> e + int n \<and> 2 powi (exponentUp n x e) \<le> x
     \<and> (exponentUp n x e < e + int n \<longrightarrow> x < 2 powi (exponentUp n x e + 1))"
proof (induction n arbitrary: e)
  case 0
  then show ?case by simp
next
  case (Suc n)
  show ?case
  proof (cases "x < 2 powi (e + 1)")
    case True
    with Suc.prems show ?thesis by simp
  next
    case False
    then have "2 powi (e + 1) \<le> x" by simp
    from Suc.IH [OF this] False show ?thesis by auto
  qed
qed

lemma exponentDown_props:
  "x < 2 powi (e + 1) \<Longrightarrow>
     e - int n \<le> exponentDown n x e \<and> exponentDown n x e \<le> e
     \<and> x < 2 powi (exponentDown n x e + 1)
     \<and> (e - int n < exponentDown n x e \<longrightarrow> 2 powi (exponentDown n x e) \<le> x)"
proof (induction n arbitrary: e)
  case 0
  then show ?case by simp
next
  case (Suc n)
  show ?case
  proof (cases "2 powi e \<le> x")
    case True
    with Suc.prems show ?thesis by simp
  next
    case False
    then have "x < 2 powi ((e - 1) + 1)" by simp
    from Suc.IH [OF this] False show ?thesis by auto
  qed
qed

lemma exponentOf_props:
  "-1022 \<le> exponentOf x \<and> exponentOf x \<le> 1023
   \<and> (-1022 < exponentOf x \<longrightarrow> 2 powi (exponentOf x) \<le> x)
   \<and> (exponentOf x < 1023 \<longrightarrow> x < 2 powi (exponentOf x + 1))"
proof (cases "1 \<le> x")
  case True
  then have "2 powi 0 \<le> x" by simp
  from exponentUp_props [OF this, of 1023] True show ?thesis
    by (simp add: exponentOf_def)
next
  case False
  then have "x < 2 powi (-1 + 1)" by simp
  from exponentDown_props [OF this, of 1021] False show ?thesis
    by (simp add: exponentOf_def)
qed

lemma pow2_less_imp: "(2::real) powi a < 2 powi b \<Longrightarrow> a < b"
  by (metis not_le power_int_increasing one_le_numeral)

lemma exponentOf_lt:
  assumes "x < 2 powi k" "-1021 \<le> k"
  shows "exponentOf x < k"
proof (cases "-1022 < exponentOf x")
  case True
  with exponentOf_props [of x] have "2 powi (exponentOf x) \<le> x" by simp
  with assms(1) have "(2::real) powi (exponentOf x) < 2 powi k" by simp
  then show ?thesis by (rule pow2_less_imp)
next
  case False
  with assms(2) show ?thesis by simp
qed

lemma exponentOf_ge:
  assumes "2 powi k \<le> x" "k \<le> 1023"
  shows "k \<le> exponentOf x"
proof (cases "exponentOf x < 1023")
  case True
  with exponentOf_props [of x] have "x < 2 powi (exponentOf x + 1)" by simp
  with assms(1) have "(2::real) powi k < 2 powi (exponentOf x + 1)" by simp
  then have "k < exponentOf x + 1" by (rule pow2_less_imp)
  then show ?thesis by simp
next
  case False
  with assms(2) show ?thesis by simp
qed

lemma below_next_power: "exponentOf x < 1023 \<Longrightarrow> x < 2 powi (exponentOf x + 1)"
  using exponentOf_props [of x] by simp


lemma ulp_pos: "0 < ulp x"
  by (simp add: ulp_def)

lemma roundEven_nonneg: "0 \<le> y \<Longrightarrow> 0 \<le> roundEven y"
  by (auto simp: roundEven_def Let_def)

lemma roundEven_le: "y \<le> of_int N \<Longrightarrow> roundEven y \<le> N"
proof -
  assume a: "y \<le> of_int N"
  have f: "of_int \<lfloor>y\<rfloor> \<le> y" "y < of_int \<lfloor>y\<rfloor> + 1" by linarith+
  show ?thesis
  proof (cases "y = of_int N")
    case True
    then show ?thesis by (simp add: roundEven_def)
  next
    case False
    with a have "y < of_int N" by simp
    then have "\<lfloor>y\<rfloor> < N" using f by linarith
    then show ?thesis by (auto simp: roundEven_def Let_def)
  qed
qed

lemma roundEven_below_half: "y < of_int N - 1/2 \<Longrightarrow> roundEven y \<le> N - 1"
proof -
  assume a: "y < of_int N - 1/2"
  have f: "of_int \<lfloor>y\<rfloor> \<le> y" "y < of_int \<lfloor>y\<rfloor> + 1" by linarith+
  from a f have n: "\<lfloor>y\<rfloor> \<le> N - 1" by linarith
  show ?thesis
  proof (cases "\<lfloor>y\<rfloor> = N - 1")
    case True
    with a have "y - of_int \<lfloor>y\<rfloor> < 1/2" by simp
    with True show ?thesis by (simp add: roundEven_def Let_def)
  next
    case False
    with n have "\<lfloor>y\<rfloor> \<le> N - 2" by simp
    then show ?thesis by (auto simp: roundEven_def Let_def)
  qed
qed

lemma roundDouble_nonneg: "0 \<le> x \<Longrightarrow> 0 \<le> roundDouble x"
  unfolding roundDouble_def using ulp_pos [of x] roundEven_nonneg [of "x / ulp x"]
  by simp

lemma pow53_ulp: "2 ^ 53 * ulp x = 2 powi (exponentOf x + 1)"
proof -
  have "(2::real) powi (53 + (exponentOf x - 52)) = 2 powi 53 * 2 powi (exponentOf x - 52)"
    by (rule power_int_add) simp
  moreover have "53 + (exponentOf x - 52) = exponentOf x + 1" by simp
  ultimately have "(2::real) powi (exponentOf x + 1) = 2 powi 53 * 2 powi (exponentOf x - 52)"
    by (simp only:)
  then show ?thesis by (simp add: ulp_def)
qed

lemma roundEven_scaled_le:
  fixes p :: real and k :: int
  assumes "0 < u" "p = of_int k" "y < p"
  shows "of_int (roundEven y) * u \<le> p * u"
proof -
  from assms have "y \<le> of_int k" by simp
  then have "roundEven y \<le> k" by (rule roundEven_le)
  then have "real_of_int (roundEven y) \<le> p" unfolding assms(2) by (simp only: of_int_le_iff)
  with assms(1) show ?thesis by (intro mult_right_mono) simp_all
qed

lemma roundDouble_le_next_power:
  assumes "exponentOf x < 1023"
  shows "roundDouble x \<le> 2 powi (exponentOf x + 1)"
proof -
  have "x < 2 powi (exponentOf x + 1)" using assms by (rule below_next_power)
  then have "x < 2 ^ 53 * ulp x" by (simp only: pow53_ulp)
  then have y: "x / ulp x < 2 ^ 53" using ulp_pos [of x] by (simp add: pos_divide_less_eq)
  have k: "(2::real) ^ 53 = of_int (2 ^ 53)" by simp
  have "real_of_int (roundEven (x / ulp x)) * ulp x \<le> 2 ^ 53 * ulp x"
    by (rule roundEven_scaled_le [OF ulp_pos k y])
  then show ?thesis by (simp only: roundDouble_def pow53_ulp)
qed

lemma round_below_ten_scaled:
  fixes p :: real and k :: int
  assumes p: "p = of_int k" "0 < p" and x: "x < 10 - 1 / (2 * p)"
  shows "of_int (roundEven (x * p)) / p < 10"
proof -
  from x p(2) have "x * p < (10 - 1 / (2 * p)) * p" by simp
  also have "\<dots> = 10 * p - 1/2" using p(2) by (simp add: field_simps)
  also have "\<dots> = of_int (10 * k) - 1/2" by (simp add: p(1))
  finally have "roundEven (x * p) \<le> 10 * k - 1" by (rule roundEven_below_half)
  then have "real_of_int (roundEven (x * p)) \<le> real_of_int (10 * k - 1)"
    by (simp only: of_int_le_iff)
  then have "real_of_int (roundEven (x * p)) \<le> 10 * p - 1" by (simp add: p(1))
  then have "real_of_int (roundEven (x * p)) / p \<le> (10 * p - 1) / p"
    using p(2) by (simp add: divide_right_mono)
  also have "\<dots> < 10" using p(2) by (simp add: field_simps)
  finally show ?thesis .
qed

lemma roundDouble_below_ten:
  assumes "0 \<le> x" "x < 10 - 1 / 2 ^ 50"
  shows "roundDouble x < 10"
proof (cases "x < 8")
  case True
  then have "x < 2 powi 3" by simp
  then have e: "exponentOf x < 3" by (rule exponentOf_lt) simp
  then have "roundDouble x \<le> 2 powi (exponentOf x + 1)"
    by (intro roundDouble_le_next_power) simp
  also have "\<dots> \<le> 2 powi 3" using e by (intro power_int_increasing) simp_all
  finally show ?thesis by simp
next
  case False
  then have "2 powi 3 \<le> x" by simp
  then have "3 \<le> exponentOf x" by (rule exponentOf_ge) simp
  moreover from assms have "x < 2 powi 4" by simp
  then have "exponentOf x < 4" by (rule exponentOf_lt) simp
  ultimately have e: "exponentOf x = 3" by simp
  have "ulp x = 2 powi (-49)" by (simp add: ulp_def e)
  then have u: "ulp x = 1 / 2 ^ 49" by (simp add: inverse_eq_divide)
  have k: "(2::real) ^ 49 = of_int (2 ^ 49)" by simp
  have h: "(1::real) / 2 ^ 50 = 1 / (2 * 2 ^ 49)" by simp
  have "of_int (roundEven (x * 2 ^ 49)) / 2 ^ 49 < (10::real)"
    by (rule round_below_ten_scaled [OF k]) (use assms(2) h in simp_all)
  then show ?thesis by (simp add: roundDouble_def u)
qed

lemma below_one_scaled:
  fixes p :: real and k :: int
  assumes "p = of_int k" "0 < p" "r = of_int m / p" "r < 1"
  shows "r \<le> 1 - 1 / p"
proof -
  from assms(3,4) have "real_of_int m / p < 1" by simp
  then have "real_of_int m < p" using assms(2) by (simp add: pos_divide_less_eq)
  then have "real_of_int m < real_of_int k" by (simp only: assms(1))
  then have "m < k" by (simp only: of_int_less_iff)
  then have "m \<le> k - 1" by simp
  then have "real_of_int m \<le> real_of_int (k - 1)" by (simp only: of_int_le_iff)
  then have "real_of_int m \<le> p - 1" by (simp add: assms(1))
  then have "real_of_int m / p \<le> (p - 1) / p" using assms(2) by (simp add: divide_right_mono)
  also have "\<dots> = 1 - 1 / p" using assms(2) by (simp add: field_simps)
  finally show ?thesis by (simp add: assms(3))
qed

lemma double_below_one:
  assumes "isDouble r" "0 \<le> r" "r < 1"
  shows "r \<le> 1 - 1 / 2 ^ 53"
proof (cases "r < 1/2")
  case True
  have "(1::real) / 2 ^ 53 \<le> 1 / 2" by simp
  with True show ?thesis by linarith
next
  case False
  then have "2 powi (-1) \<le> r" by simp
  then have "-1 \<le> exponentOf r" by (rule exponentOf_ge) simp
  moreover from assms(3) have "r < 2 powi 0" by simp
  then have "exponentOf r < 0" by (rule exponentOf_lt) simp
  ultimately have e: "exponentOf r = -1" by simp
  have "ulp r = 2 powi (-53)" by (simp add: ulp_def e)
  then have u: "ulp r = 1 / 2 ^ 53" by (simp add: inverse_eq_divide)
  from assms(1) have r: "r = real_of_int (roundEven (r / ulp r)) / 2 ^ 53"
    by (simp add: isDouble_def roundDouble_def u)
  have k: "(2::real) ^ 53 = of_int (2 ^ 53)" by simp
  show ?thesis by (rule below_one_scaled [OF k _ r assms(3)]) simp
qed

lemma ten_times_below:
  fixes q :: real
  assumes "0 < q" "r \<le> 1 - 1 / (8 * q)"
  shows "r * 10 < 10 - 1 / q"
proof -
  from assms(2) have "r * 10 \<le> (1 - 1 / (8 * q)) * 10" by simp
  also have "\<dots> = 10 - (5 / 4) / q" using assms(1) by (simp add: field_simps)
  also have "\<dots> < 10 - 1 / q" using assms(1) by (simp add: field_simps)
  finally show ?thesis .
qed

lemma floor_ten_times_range:
  assumes "isDouble r" "0 \<le> r" "r < 1"
  shows "0 \<le> \<lfloor>roundDouble (r * 10)\<rfloor> \<and> \<lfloor>roundDouble (r * 10)\<rfloor> \<le> 9"
proof -
  have h: "(1::real) / 2 ^ 53 = 1 / (8 * 2 ^ 50)" by simp
  from double_below_one [OF assms] have "r \<le> 1 - 1 / (8 * 2 ^ 50)" by (simp only: h)
  then have "r * 10 < 10 - 1 / 2 ^ 50" by (intro ten_times_below) simp_all
  moreover from assms(2) have "0 \<le> r * 10" by simp
  ultimately have "roundDouble (r * 10) < 10" "0 \<le> roundDouble (r * 10)"
    by (simp_all only: roundDouble_below_ten roundDouble_nonneg)
  then show ?thesis by (simp add: floor_less_iff le_floor_iff)
qed

text \<open>
  The rounded product can differ from the exact one: for this double the exact product with
  10 lies halfway between two doubles below 9 and 9 itself, and is rounded to 9.
\<close>

lemma rounded_product_reaches_nine:
  "isDouble (2026619832316723 / 2 ^ 51)
   \<and> \<lfloor>jsMultiply (2026619832316723 / 2 ^ 51) 10\<rfloor> = 9
   \<and> \<lfloor>(2026619832316723 / 2 ^ 51 :: real) * 10\<rfloor> = 8"
  by code_simp

section \<open>Properties of the heuristic clause analysis\<close>

lemma base_nonneg: "validDraws d \<Longrightarrow> 0 \<le> \<lfloor>jsMultiply (riskDraw d) 10\<rfloor>"
  using roundDouble_nonneg [of "riskDraw d * 10"]
  by (simp add: validDraws_def validDraw_def jsMultiply_def)

lemma riskDraw_range:
  "machineDraws d \<Longrightarrow>
     0 \<le> \<lfloor>jsMultiply (riskDraw d) 10\<rfloor> \<and> \<lfloor>jsMultiply (riskDraw d) 10\<rfloor> \<le> 9"
  using floor_ten_times_range [of "riskDraw d"]
  by (simp add: machineDraws_def isRandomNumber_def jsMultiply_def)

lemma status_basicClauseAnalysis:
  "compliance_status (basicClauseAnalysis clauseText rules section d) =
     determineStatus (matchRules clauseText rules) (statusDraw d)"
  by (simp add: basicClauseAnalysis_def Let_def)

lemma risk_basicClauseAnalysis:
  "risk_score (basicClauseAnalysis clauseText rules section d) =
     adjustRisk (determineStatus (matchRules clauseText rules) (statusDraw d))
       \<lfloor>jsMultiply (riskDraw d) 10\<rfloor>"
  by (simp add: basicClauseAnalysis_def Let_def)

text \<open>
  C1. Whatever the clause, the rules and the random draws (doubles of \<open>[0, 1)\<close>, the base
  value being the floor of the rounded product with 10), the risk score that the heuristic
  analysis returns lies in the band of the status it returns: 7 to 9 for Non-Compliant,
  4 to 6 for Review Needed, 0 to 3 for Compliant.
\<close>

theorem risk_in_status_band:
  assumes "machineDraws d"
  shows "(compliance_status (basicClauseAnalysis clauseText rules section d) = NonCompliant \<longrightarrow>
            7 \<le> risk_score (basicClauseAnalysis clauseText rules section d) \<and>
            risk_score (basicClauseAnalysis clauseText rules section d) \<le> 9)
       \<and> (compliance_status (basicClauseAnalysis clauseText rules section d) = ReviewNeeded \<longrightarrow>
            4 \<le> risk_score (basicClauseAnalysis clauseText rules section d) \<and>
            risk_score (basicClauseAnalysis clauseText rules section d) \<le> 6)
       \<and> (compliance_status (basicClauseAnalysis clauseText rules section d) = Compliant \<longrightarrow>
            0 \<le> risk_score (basicClauseAnalysis clauseText rules section d) \<and>
            risk_score (basicClauseAnalysis clauseText rules section d) \<le> 3)"
  using riskDraw_range [OF assms]
  by (simp add: status_basicClauseAnalysis risk_basicClauseAnalysis adjustRisk_def)

text \<open>The witness takes the largest double below 1 as the draw of the base value.\<close>

theorem risk_in_status_band_witness:
  "machineDraws \<lparr>statusDraw = 1/4, riskDraw = 1 - 1 / 2 ^ 53, categoryDraw = 3/4\<rparr>
   \<and> compliance_status (basicClauseAnalysis ''This liability clause caps damages.'' seedRules None
         \<lparr>statusDraw = 1/4, riskDraw = 1 - 1 / 2 ^ 53, categoryDraw = 3/4\<rparr>) = NonCompliant
   \<and> 7 \<le> risk_score (basicClauseAnalysis ''This liability clause caps damages.'' seedRules None
         \<lparr>statusDraw = 1/4, riskDraw = 1 - 1 / 2 ^ 53, categoryDraw = 3/4\<rparr>)
   \<and> risk_score (basicClauseAnalysis ''This liability clause caps damages.'' seedRules None
         \<lparr>statusDraw = 1/4, riskDraw = 1 - 1 / 2 ^ 53, categoryDraw = 3/4\<rparr>) \<le> 9
   \<and> compliance_status (basicClauseAnalysis ''A non-disclosure agreement is attached.'' seedRules None
         \<lparr>statusDraw = 1/4, riskDraw = 1 - 1 / 2 ^ 53, categoryDraw = 3/4\<rparr>) = ReviewNeeded
   \<and> 4 \<le> risk_score (basicClauseAnalysis ''A non-disclosure agreement is attached.'' seedRules None
         \<lparr>statusDraw = 1/4, riskDraw = 1 - 1 / 2 ^ 53, categoryDraw = 3/4\<rparr>)
   \<and> risk_score (basicClauseAnalysis ''A non-disclosure agreement is attached.'' seedRules None
         \<lparr>statusDraw = 1/4, riskDraw = 1 - 1 / 2 ^ 53, categoryDraw = 3/4\<rparr>) \<le> 6
   \<and> compliance_status (basicClauseAnalysis ''Nothing of note.'' seedRules None
         \<lparr>statusDraw = 1/4, riskDraw = 1 - 1 / 2 ^ 53, categoryDraw = 3/4\<rparr>) = Compliant
   \<and> 0 \<le> risk_score (basicClauseAnalysis ''Nothing of note.'' seedRules None
         \<lparr>statusDraw = 1/4, riskDraw = 1 - 1 / 2 ^ 53, categoryDraw = 3/4\<rparr>)
   \<and> risk_score (basicClauseAnalysis ''Nothing of note.'' seedRules None
         \<lparr>statusDraw = 1/4, riskDraw = 1 - 1 / 2 ^ 53, categoryDraw = 3/4\<rparr>) \<le> 3"
proof -
  have v: "machineDraws \<lparr>statusDraw = 1/4, riskDraw = 1 - 1 / 2 ^ 53, categoryDraw = 3/4\<rparr>"
    by code_simp
  have s1: "compliance_status (basicClauseAnalysis ''This liability clause caps damages.'' seedRules None
         \<lparr>statusDraw = 1/4, riskDraw = 1 - 1 / 2 ^ 53, categoryDraw = 3/4\<rparr>) = NonCompliant"
    by code_simp
  have s2: "compliance_status (basicClauseAnalysis ''A non-disclosure agreement is attached.'' seedRules None
         \<lparr>statusDraw = 1/4, riskDraw = 1 - 1 / 2 ^ 53, categoryDraw = 3/4\<rparr>) = ReviewNeeded"
    by code_simp
  have s3: "compliance_status (basicClauseAnalysis ''Nothing of note.'' seedRules None
         \<lparr>statusDraw = 1/4, riskDraw = 1 - 1 / 2 ^ 53, categoryDraw = 3/4\<rparr>) = Compliant"
    by code_simp
  from risk_in_status_band [OF v, of "''This liability clause caps damages.''" seedRules None]
       risk_in_status_band [OF v, of "''A non-disclosure agreement is attached.''" seedRules None]
       risk_in_status_band [OF v, of "''Nothing of note.''" seedRules None]
       v s1 s2 s3
  show ?thesis by simp
qed

text \<open>
  C2. The status is Non-Compliant exactly when some rule whose keyword is found is not
  allowed. When rules are found and all of them are allowed, the status is decided by the
  coin: Compliant for a draw above one half, Review Needed otherwise. When no rule is found,
  and in particular for the empty rule set, the status is Compliant and the risk score is
  between 0 and 3.
\<close>

theorem status_decision:
  assumes "validDraws d"
  shows "(compliance_status (basicClauseAnalysis clauseText rules section d) = NonCompliant
            \<longleftrightarrow> (\<exists>r \<in> set rules. keywordFound clauseText r \<and> \<not> allowed r))
       \<and> ((\<exists>r \<in> set rules. keywordFound clauseText r)
            \<and> (\<forall>r \<in> set rules. keywordFound clauseText r \<longrightarrow> allowed r)
          \<longrightarrow> compliance_status (basicClauseAnalysis clauseText rules section d)
                = (if 1/2 < statusDraw d then Compliant else ReviewNeeded))
       \<and> ((\<forall>r \<in> set rules. \<not> keywordFound clauseText r)
          \<longrightarrow> compliance_status (basicClauseAnalysis clauseText rules section d) = Compliant
              \<and> 0 \<le> risk_score (basicClauseAnalysis clauseText rules section d)
              \<and> risk_score (basicClauseAnalysis clauseText rules section d) \<le> 3)
       \<and> compliance_status (basicClauseAnalysis clauseText [] section d) = Compliant
       \<and> 0 \<le> risk_score (basicClauseAnalysis clauseText [] section d)
       \<and> risk_score (basicClauseAnalysis clauseText [] section d) \<le> 3"
proof -
  have st: "determineStatus (matchRules clauseText rules) (statusDraw d) =
          (if \<exists>r \<in> set rules. keywordFound clauseText r \<and> \<not> allowed r then NonCompliant
           else if \<exists>r \<in> set rules. keywordFound clauseText r
                then (if 1/2 < statusDraw d then Compliant else ReviewNeeded)
                else Compliant)"
    using violations_empty_iff [of clauseText rules] matchRules_empty_iff [of clauseText rules]
    by (simp add: determineStatus_def Let_def)
  have st0: "determineStatus (matchRules clauseText []) (statusDraw d) = Compliant"
    by (simp add: determineStatus_def)
  from base_nonneg [OF assms] show ?thesis
    unfolding status_basicClauseAnalysis risk_basicClauseAnalysis st st0
    by (auto simp: adjustRisk_def)
qed

theorem status_decision_witness:
  "validDraws \<lparr>statusDraw = 1/4, riskDraw = 1/2, categoryDraw = 3/4\<rparr>
   \<and> validDraws \<lparr>statusDraw = 3/4, riskDraw = 1/2, categoryDraw = 3/4\<rparr>
   \<and> (\<exists>r \<in> set seedRules. keywordFound ''This liability clause caps damages.'' r \<and> \<not> allowed r)
   \<and> compliance_status (basicClauseAnalysis ''This liability clause caps damages.'' seedRules None
         \<lparr>statusDraw = 1/4, riskDraw = 1/2, categoryDraw = 3/4\<rparr>) = NonCompliant
   \<and> (\<exists>r \<in> set seedRules. keywordFound ''A non-disclosure agreement is attached.'' r)
   \<and> \<not> (\<exists>r \<in> set seedRules. keywordFound ''A non-disclosure agreement is attached.'' r \<and> \<not> allowed r)
   \<and> compliance_status (basicClauseAnalysis ''A non-disclosure agreement is attached.'' seedRules None
         \<lparr>statusDraw = 1/4, riskDraw = 1/2, categoryDraw = 3/4\<rparr>) = ReviewNeeded
   \<and> compliance_status (basicClauseAnalysis ''A non-disclosure agreement is attached.'' seedRules None
         \<lparr>statusDraw = 3/4, riskDraw = 1/2, categoryDraw = 3/4\<rparr>) = Compliant
   \<and> \<not> (\<exists>r \<in> set seedRules. keywordFound ''Nothing of note.'' r)
   \<and> compliance_status (basicClauseAnalysis ''Nothing of note.'' seedRules None
         \<lparr>statusDraw = 1/4, riskDraw = 1/2, categoryDraw = 3/4\<rparr>) = Compliant
   \<and> risk_score (basicClauseAnalysis ''Nothing of note.'' seedRules None
         \<lparr>statusDraw = 1/4, riskDraw = 1/2, categoryDraw = 3/4\<rparr>) \<le> 3"
proof -
  have v1: "validDraws \<lparr>statusDraw = 1/4, riskDraw = 1/2, categoryDraw = 3/4\<rparr>"
    by (simp add: validDraws_def validDraw_def)
  have v2: "validDraws \<lparr>statusDraw = 3/4, riskDraw = 1/2, categoryDraw = 3/4\<rparr>"
    by (simp add: validDraws_def validDraw_def)
  have h1: "\<exists>r \<in> set seedRules. keywordFound ''This liability clause caps damages.'' r \<and> \<not> allowed r"
    by code_simp
  have h2: "\<exists>r \<in> set seedRules. keywordFound ''A non-disclosure agreement is attached.'' r"
    by code_simp
  have h3: "\<forall>r \<in> set seedRules. keywordFound ''A non-disclosure agreement is attached.'' r \<longrightarrow> allowed r"
    by code_simp
  have h4: "\<forall>r \<in> set seedRules. \<not> keywordFound ''Nothing of note.'' r"
    by code_simp
  from status_decision [OF v1, of "''This liability clause caps damages.''" seedRules None] h1
  have c1: "compliance_status (basicClauseAnalysis ''This liability clause caps damages.'' seedRules None
         \<lparr>statusDraw = 1/4, riskDraw = 1/2, categoryDraw = 3/4\<rparr>) = NonCompliant"
    by blast
  from status_decision [OF v1, of "''A non-disclosure agreement is attached.''" seedRules None] h2 h3
  have c2: "compliance_status (basicClauseAnalysis ''A non-disclosure agreement is attached.'' seedRules None
         \<lparr>statusDraw = 1/4, riskDraw = 1/2, categoryDraw = 3/4\<rparr>) = ReviewNeeded"
    by simp
  from status_decision [OF v2, of "''A non-disclosure agreement is attached.''" seedRules None] h2 h3
  have c3: "compliance_status (basicClauseAnalysis ''A non-disclosure agreement is attached.'' seedRules None
         \<lparr>statusDraw = 3/4, riskDraw = 1/2, categoryDraw = 3/4\<rparr>) = Compliant"
    by simp
  from status_decision [OF v1, of "''Nothing of note.''" seedRules None] h4
  have c4: "compliance_status (basicClauseAnalysis ''Nothing of note.'' seedRules None
         \<lparr>statusDraw = 1/4, riskDraw = 1/2, categoryDraw = 3/4\<rparr>) = Compliant
      \<and> risk_score (basicClauseAnalysis ''Nothing of note.'' seedRules None
         \<lparr>statusDraw = 1/4, riskDraw = 1/2, categoryDraw = 3/4\<rparr>) \<le> 3"
    by blast
  from h3 have h3': "\<not> (\<exists>r \<in> set seedRules.
      keywordFound ''A non-disclosure agreement is attached.'' r \<and> \<not> allowed r)" by blast
  from h4 have h4': "\<not> (\<exists>r \<in> set seedRules. keywordFound ''Nothing of note.'' r)" by blast
  from v1 v2 h1 h2 h3' h4' c1 c2 c3 c4 show ?thesis by blast
qed

lemma adjustRisk_range: "0 \<le> b \<Longrightarrow> b \<le> 9 \<Longrightarrow> 0 \<le> adjustRisk s b \<and> adjustRisk s b \<le> 9"
  unfolding adjustRisk_def by (cases s) auto

text \<open>
  C10. The heuristic analysis never returns a risk score above 9. The draw is a double
  below 1, hence at most \<open>1 - 2 ^ -53\<close>; its exact product with 10 lies below the midpoint
  of 10 and the double before it, so the rounded product is below 10 and the base value,
  its floor, lies between 0 and 9. Each of the three adjustments keeps a value of that
  range inside it, so the value 10 is not produced.
\<close>

theorem heuristic_risk_at_most_nine:
  assumes "machineDraws d"
  shows "0 \<le> \<lfloor>jsMultiply (riskDraw d) 10\<rfloor> \<and> \<lfloor>jsMultiply (riskDraw d) 10\<rfloor> \<le> 9
       \<and> 0 \<le> risk_score (basicClauseAnalysis clauseText rules section d)
       \<and> risk_score (basicClauseAnalysis clauseText rules section d) \<le> 9
       \<and> risk_score (basicClauseAnalysis clauseText rules section d) \<noteq> 10"
proof -
  from riskDraw_range [OF assms] have
    b: "0 \<le> \<lfloor>jsMultiply (riskDraw d) 10\<rfloor>" "\<lfloor>jsMultiply (riskDraw d) 10\<rfloor> \<le> 9"
    by simp_all
  from adjustRisk_range [OF b, of "determineStatus (matchRules clauseText rules) (statusDraw d)"] b
  show ?thesis
    unfolding risk_basicClauseAnalysis by linarith
qed

text \<open>The witness takes the largest double below 1 as the draw of the base value.\<close>

theorem heuristic_risk_at_most_nine_witness:
  "machineDraws \<lparr>statusDraw = 1/4, riskDraw = 1 - 1 / 2 ^ 53, categoryDraw = 3/4\<rparr>
   \<and> \<lfloor>jsMultiply (1 - 1 / 2 ^ 53) 10\<rfloor> = 9
   \<and> risk_score (basicClauseAnalysis ''This liability clause caps damages.'' seedRules None
         \<lparr>statusDraw = 1/4, riskDraw = 1 - 1 / 2 ^ 53, categoryDraw = 3/4\<rparr>) \<le> 9"
proof -
  have v: "machineDraws \<lparr>statusDraw = 1/4, riskDraw = 1 - 1 / 2 ^ 53, categoryDraw = 3/4\<rparr>"
    by code_simp
  have f: "\<lfloor>jsMultiply (1 - 1 / 2 ^ 53) 10\<rfloor> = 9"
    by code_simp
  from heuristic_risk_at_most_nine [OF v, of "''This liability clause caps damages.''" seedRules None] v f
  show ?thesis by blast
qed

section \<open>Properties of the heuristic segmenter\<close>

lemma splitBy_no_match:
  "(\<And>c cs. c \<in> set s \<Longrightarrow> m c cs = None) \<Longrightarrow> splitBy m piece s = [piece @ s]"
  by (induction s arbitrary: piece) auto

lemma paragraphsOf_single_line: "CHR 0x0A \<notin> set s \<Longrightarrow> paragraphsOf s = [s]"
  unfolding paragraphsOf_def
  by (rule splitBy_no_match [where piece = "[]", simplified]) (auto simp: blankLineMatch_def)

lemma length_trim_le: "length (trim s) \<le> length s"
  unfolding trim_def
  by (metis length_dropWhile_le length_rev order_trans)

text \<open>
  C3, as stated, fails: a text of three short paragraphs, 83 characters after trimming, has
  no paragraph and no sentence longer than 50 characters, and the segmenter returns the
  empty array.
\<close>

theorem segmenter_empty_on_short_paragraphs:
  "50 < length (trim shortParagraphs) \<and> splitTextIntoClauses shortParagraphs = []"
  by code_simp

text \<open>
  C3, amended. The segmenter returns at least one clause exactly when some blank-line
  paragraph is longer than 50 characters after trimming or some sentence piece is longer
  than 50 characters; every clause it returns is longer than 50 characters; and a text
  without line feed whose trimmed length exceeds 50 is returned whole, as one clause.
\<close>

theorem segmenter_nonempty_iff:
  "(splitTextIntoClauses doc \<noteq> [] \<longleftrightarrow>
      (\<exists>p \<in> set (paragraphsOf doc). 50 < length (trim p)) \<or>
      (\<exists>s \<in> set (sentencesOf doc). 50 < length s))
   \<and> (\<forall>c \<in> set (splitTextIntoClauses doc). 50 < length c)
   \<and> (CHR 0x0A \<notin> set doc \<and> 50 < length (trim doc) \<longrightarrow> splitTextIntoClauses doc = [doc])"
proof (intro conjI)
  show "splitTextIntoClauses doc \<noteq> [] \<longleftrightarrow>
      (\<exists>p \<in> set (paragraphsOf doc). 50 < length (trim p)) \<or>
      (\<exists>s \<in> set (sentencesOf doc). 50 < length s)"
    by (auto simp: splitTextIntoClauses_def Let_def filter_empty_conv)
  show "\<forall>c \<in> set (splitTextIntoClauses doc). 50 < length c"
    using length_trim_le
    by (auto simp: splitTextIntoClauses_def Let_def intro: less_le_trans)
  show "CHR 0x0A \<notin> set doc \<and> 50 < length (trim doc) \<longrightarrow> splitTextIntoClauses doc = [doc]"
    by (auto simp: splitTextIntoClauses_def Let_def paragraphsOf_single_line)
qed

theorem segmenter_nonempty_iff_witness:
  "(\<exists>p \<in> set (paragraphsOf exampleDocument). 50 < length (trim p))
   \<and> splitTextIntoClauses exampleDocument \<noteq> []
   \<and> CHR 0x0A \<notin> set ''The Vendor shall not be liable for any damages whatsoever.''
   \<and> 50 < length (trim ''The Vendor shall not be liable for any damages whatsoever.'')
   \<and> splitTextIntoClauses ''The Vendor shall not be liable for any damages whatsoever.''
       = [''The Vendor shall not be liable for any damages whatsoever.'']"
proof -
  have h: "\<exists>p \<in> set (paragraphsOf exampleDocument). 50 < length (trim p)"
    by code_simp
  have l: "CHR 0x0A \<notin> set ''The Vendor shall not be liable for any damages whatsoever.''
     \<and> 50 < length (trim ''The Vendor shall not be liable for any damages whatsoever.'')"
    by code_simp
  from segmenter_nonempty_iff [of exampleDocument]
       segmenter_nonempty_iff [of "''The Vendor shall not be liable for any damages whatsoever.''"]
       h l
  show ?thesis by blast
qed

section \<open>Properties of the fee merge\<close>













lemma keyed_entries: "keyed m \<Longrightarrow> feeEntries (map snd m) = m"
  unfolding keyed_def feeEntries_def by (induction m) auto


























section \<open>Properties of the payment-term extraction\<close>

lemma toLowerChar_idem: "toLowerChar (toLowerChar c) = toLowerChar c"
  by (auto simp: toLowerChar_def Let_def)

lemma toLowerCase_idem: "toLowerCase (toLowerCase s) = toLowerCase s"
  by (simp add: toLowerCase_def toLowerChar_idem)

lemma toLowerCase_append: "toLowerCase (a @ b) = toLowerCase a @ toLowerCase b"
  by (simp add: toLowerCase_def)

lemma literal_take:
  "literal p u = Some r \<Longrightarrow> length p \<le> length u \<and> map toLowerChar (take (length p) u) = p"
  by (induction p u rule: literal.induct) (auto split: if_splits)

lemma regexSearch_suffix:
  "regexSearch m s = Some r \<Longrightarrow> \<exists>i \<le> length s. m (drop i s) = Some r"
proof (induction s)
  case Nil
  then show ?case by simp
next
  case (Cons c cs)
  show ?case
  proof (cases "m (c # cs)")
    case (Some a)
    with Cons.prems have "m (drop 0 (c # cs)) = Some r" by simp
    then show ?thesis by blast
  next
    case None
    with Cons.prems have "regexSearch m cs = Some r" by simp
    with Cons.IH obtain i where "i \<le> length cs" "m (drop i cs) = Some r" by blast
    then have "Suc i \<le> length (c # cs) \<and> m (drop (Suc i) (c # cs)) = Some r" by simp
    then show ?thesis by blast
  qed
qed


lemma regex_literal_included:
  assumes found: "regexSearch m (toLowerCase t) = Some r"
      and lit: "\<And>u. m u \<noteq> None \<Longrightarrow> literal p u \<noteq> None"
  shows "includesStr (toLowerCase t) p"
proof -
  from regexSearch_suffix [OF found] obtain i where
    i: "i \<le> length (toLowerCase t)" "m (drop i (toLowerCase t)) = Some r" by blast
  then have "literal p (drop i (toLowerCase t)) \<noteq> None" using lit by simp
  then obtain r' where "literal p (drop i (toLowerCase t)) = Some r'" by blast
  from literal_take [OF this] have
    len: "length p \<le> length (drop i (toLowerCase t))" and
    eq: "map toLowerChar (take (length p) (drop i (toLowerCase t))) = p" by simp_all
  have "map toLowerChar (take (length p) (drop i (toLowerCase t)))
          = take (length p) (drop i (toLowerCase (toLowerCase t)))"
    by (simp add: toLowerCase_def take_map drop_map)
  with eq have "take (length p) (drop i (toLowerCase t)) = p"
    by (simp add: toLowerCase_idem)
  moreover from len i(1) have "i + length p \<le> length (toLowerCase t)" by simp
  ultimately show ?thesis unfolding includesStr_take_drop by blast
qed

lemma netDaysAt_literal: "netDaysAt u \<noteq> None \<Longrightarrow> literal ''net'' u \<noteq> None"
  by (cases "literal ''net'' u") (simp_all add: netDaysAt_def)

lemma net_match_payment_related:
  "regexSearch netDaysAt (toLowerCase t) = Some n \<Longrightarrow> isPaymentRelated t"
  unfolding isPaymentRelated_def
  using regex_literal_included [of netDaysAt t n "''net''"] netDaysAt_literal by blast

lemma set_foldl_setAdd: "set (foldl (\<lambda>s x. setAdd x s) acc xs) = set acc \<union> set xs"
  by (induction xs arbitrary: acc) (auto simp: setAdd_def)

lemma set_newSet: "set (newSet xs) = set xs"
  by (simp add: newSet_def set_foldl_setAdd)

lemma filterBoolean_member: "Some s \<in> set xs \<Longrightarrow> s \<noteq> [] \<Longrightarrow> s \<in> set (filterBoolean xs)"
  by (induction xs rule: filterBoolean.induct) auto

lemma extraction_member:
  assumes "c \<in> set clauses" "isPaymentRelated (clause c)"
      and "paymentTermOf (clause c) = Some s" "s \<noteq> []"
  shows "s \<in> set (basicPaymentTermExtraction clauses)"
proof -
  from assms(1,2) have "c \<in> set (filter (\<lambda>c. isPaymentRelated (clause c)) clauses)" by simp
  then have "paymentTermOf (clause c)
          \<in> set (map (\<lambda>c. paymentTermOf (clause c)) (filter (\<lambda>c. isPaymentRelated (clause c)) clauses))"
    by auto
  with assms(3,4) show ?thesis
    unfolding basicPaymentTermExtraction_def Let_def set_newSet
    using filterBoolean_member by metis
qed

lemma paymentTermOf_long_net:
  "regexSearch netDaysAt (toLowerCase t) = Some n \<Longrightarrow> 100 < length t \<Longrightarrow>
     paymentTermOf t = Some (''Payment terms: Net '' @ n @ '' days.'')"
  by (simp add: paymentTermOf_def Let_def)

lemma matchers_empty:
  "netDaysAt [] = None" "payWithinAt [] = None" "dueAt [] = None" "lateFeeAt [] = None"
  by (simp_all add: netDaysAt_def payWithinAt_def dueAt_def lateFeeAt_def)

lemma matchesPaymentPattern_nonempty: "matchesPaymentPattern t \<Longrightarrow> t \<noteq> []"
  by (auto simp: matchesPaymentPattern_def toLowerCase_def matchers_empty)

lemma paymentTermOf_short:
  "matchesPaymentPattern t \<Longrightarrow> length t \<le> 100 \<Longrightarrow> paymentTermOf t = Some t"
  by (simp add: paymentTermOf_def Let_def matchesPaymentPattern_def)

lemma toLowerChar_N: "toLowerChar CHR ''N'' = CHR ''n''"
  by code_simp

lemma toLowerChar_lower:
  "toLowerChar CHR ''e'' = CHR ''e''" "toLowerChar CHR ''t'' = CHR ''t''"
  "toLowerChar CHR ''n'' = CHR ''n''" "toLowerChar CHR ''d'' = CHR ''d''"
  "toLowerChar CHR ''a'' = CHR ''a''" "toLowerChar CHR ''y'' = CHR ''y''"
  "toLowerChar CHR ''s'' = CHR ''s''" "toLowerChar CHR '' '' = CHR '' ''"
  "toLowerChar CHR ''3'' = CHR ''3''" "toLowerChar CHR ''0'' = CHR ''0''"
  by code_simp+

lemma net30_prefix: "netDaysAt (''net 30 days'' @ u) = Some ''30''"
  by (simp add: netDaysAt_def spaces1_def digits1_def isWhiteSpace_def isDigit_def toLowerChar_lower)

lemma scenario_match:
  "regexSearch netDaysAt (toLowerCase (''Net 30 days'' @ u)) = Some ''30''"
proof -
  have "toLowerCase (''Net 30 days'' @ u) = ''net 30 days'' @ toLowerCase u"
    by (simp add: toLowerCase_def toLowerChar_N toLowerChar_lower)
  moreover have "regexSearch netDaysAt (''net 30 days'' @ toLowerCase u) = Some ''30''"
    using net30_prefix [of "toLowerCase u"] by simp
  ultimately show ?thesis by simp
qed

text \<open>
  C7, as stated, fails in its second part: a clause of at most 100 characters that matches
  the late-fee pattern but contains none of the filter words is dropped by the filter, and
  nothing is returned for it.
\<close>

theorem short_late_fee_clause_dropped:
  "matchesPaymentPattern ''A late fee of 5% applies to every balance that remains outstanding.''
   \<and> length ''A late fee of 5% applies to every balance that remains outstanding.'' \<le> 100
   \<and> basicPaymentTermExtraction [exampleClause 1 ''doc'' ''A late fee of 5% applies to every balance that remains outstanding.''] = []"
  by code_simp

text \<open>
  C7, amended. A stored clause longer than 100 characters whose lower-cased text matches
  \<open>net N days\<close> contributes \<open>Payment terms: Net N days.\<close> to the result. A stored clause of
  at most 100 characters that passes the keyword filter and matches one of the four patterns
  is returned verbatim. Every clause that begins with the text of the scenario and is longer
  than 100 characters yields exactly \<open>Payment terms: Net 30 days.\<close>
\<close>

theorem payment_terms_extraction:
  "(c \<in> set clauses \<and> 100 < length (clause c)
      \<and> regexSearch netDaysAt (toLowerCase (clause c)) = Some n
      \<longrightarrow> ''Payment terms: Net '' @ n @ '' days.'' \<in> set (basicPaymentTermExtraction clauses))
   \<and> (c \<in> set clauses \<and> length (clause c) \<le> 100 \<and> isPaymentRelated (clause c)
      \<and> matchesPaymentPattern (clause c)
      \<longrightarrow> clause c \<in> set (basicPaymentTermExtraction clauses))
   \<and> (100 < length (''Net 30 days from receipt of invoice. A late payment fee of 1.5% per month'' @ rest)
      \<longrightarrow> basicPaymentTermExtraction
            [c\<lparr>clause := ''Net 30 days from receipt of invoice. A late payment fee of 1.5% per month'' @ rest\<rparr>]
          = [''Payment terms: Net 30 days.''])"
proof (intro conjI impI)
  assume a: "c \<in> set clauses \<and> 100 < length (clause c)
      \<and> regexSearch netDaysAt (toLowerCase (clause c)) = Some n"
  then have "paymentTermOf (clause c) = Some (''Payment terms: Net '' @ n @ '' days.'')"
    by (simp add: paymentTermOf_long_net)
  moreover from a have "isPaymentRelated (clause c)" by (simp add: net_match_payment_related)
  ultimately show "''Payment terms: Net '' @ n @ '' days.'' \<in> set (basicPaymentTermExtraction clauses)"
    using a extraction_member [of c clauses] by simp
next
  assume a: "c \<in> set clauses \<and> length (clause c) \<le> 100 \<and> isPaymentRelated (clause c)
      \<and> matchesPaymentPattern (clause c)"
  then have "paymentTermOf (clause c) = Some (clause c)" "clause c \<noteq> []"
    by (simp_all add: paymentTermOf_short matchesPaymentPattern_nonempty)
  with a show "clause c \<in> set (basicPaymentTermExtraction clauses)"
    using extraction_member [of c clauses] by simp
next
  let ?t = "''Net 30 days from receipt of invoice. A late payment fee of 1.5% per month'' @ rest"
  assume len: "100 < length ?t"
  have m: "regexSearch netDaysAt (toLowerCase ?t) = Some ''30''"
    using scenario_match [of "'' from receipt of invoice. A late payment fee of 1.5% per month'' @ rest"]
    by simp
  have p: "paymentTermOf ?t = Some ''Payment terms: Net 30 days.''"
    using paymentTermOf_long_net [OF m len] by simp
  have r: "isPaymentRelated ?t" by (rule net_match_payment_related [OF m])
  show "basicPaymentTermExtraction [c\<lparr>clause := ?t\<rparr>] = [''Payment terms: Net 30 days.'']"
    unfolding basicPaymentTermExtraction_def Let_def
    using p r by (simp add: newSet_def setAdd_def)
qed

theorem payment_terms_extraction_witness:
  "exampleClause 1 ''doc'' ''Payment terms shall be net 30 days from receipt of invoice. A late payment fee of 1.5% per month will be assessed on all overdue amounts.''
     \<in> set [exampleClause 1 ''doc'' ''Payment terms shall be net 30 days from receipt of invoice. A late payment fee of 1.5% per month will be assessed on all overdue amounts.'',
             exampleClause 2 ''doc'' ''Payment is due within 10 days.'']
   \<and> 100 < length (clause (exampleClause 1 ''doc'' ''Payment terms shall be net 30 days from receipt of invoice. A late payment fee of 1.5% per month will be assessed on all overdue amounts.''))
   \<and> regexSearch netDaysAt (toLowerCase (clause (exampleClause 1 ''doc'' ''Payment terms shall be net 30 days from receipt of invoice. A late payment fee of 1.5% per month will be assessed on all overdue amounts.''))) = Some ''30''
   \<and> ''Payment terms: Net 30 days.''
     \<in> set (basicPaymentTermExtraction
          [exampleClause 1 ''doc'' ''Payment terms shall be net 30 days from receipt of invoice. A late payment fee of 1.5% per month will be assessed on all overdue amounts.'',
           exampleClause 2 ''doc'' ''Payment is due within 10 days.''])
   \<and> length (clause (exampleClause 2 ''doc'' ''Payment is due within 10 days.'')) \<le> 100
   \<and> isPaymentRelated (clause (exampleClause 2 ''doc'' ''Payment is due within 10 days.''))
   \<and> matchesPaymentPattern (clause (exampleClause 2 ''doc'' ''Payment is due within 10 days.''))
   \<and> ''Payment is due within 10 days.''
     \<in> set (basicPaymentTermExtraction
          [exampleClause 1 ''doc'' ''Payment terms shall be net 30 days from receipt of invoice. A late payment fee of 1.5% per month will be assessed on all overdue amounts.'',
           exampleClause 2 ''doc'' ''Payment is due within 10 days.''])
   \<and> 100 < length (''Net 30 days from receipt of invoice. A late payment fee of 1.5% per month''
                   @ '' will be assessed on all overdue amounts.'')
   \<and> basicPaymentTermExtraction
        [(exampleClause 3 ''doc'' [])\<lparr>clause := ''Net 30 days from receipt of invoice. A late payment fee of 1.5% per month''
                   @ '' will be assessed on all overdue amounts.''\<rparr>]
       = [''Payment terms: Net 30 days.'']"
proof -
  let ?c1 = "exampleClause 1 ''doc'' ''Payment terms shall be net 30 days from receipt of invoice. A late payment fee of 1.5% per month will be assessed on all overdue amounts.''"
  let ?c2 = "exampleClause 2 ''doc'' ''Payment is due within 10 days.''"
  have a: "?c1 \<in> set [?c1, ?c2] \<and> 100 < length (clause ?c1)
        \<and> regexSearch netDaysAt (toLowerCase (clause ?c1)) = Some ''30''"
    by code_simp
  have b: "?c2 \<in> set [?c1, ?c2] \<and> length (clause ?c2) \<le> 100 \<and> isPaymentRelated (clause ?c2)
        \<and> matchesPaymentPattern (clause ?c2)"
    by code_simp
  have c: "100 < length (''Net 30 days from receipt of invoice. A late payment fee of 1.5% per month''
                   @ '' will be assessed on all overdue amounts.'')"
    by simp
  have t2: "clause ?c2 = ''Payment is due within 10 days.''" by (simp add: exampleClause_def)
  from payment_terms_extraction [of ?c1 "[?c1, ?c2]" "''30''"] a
  have r1: "''Payment terms: Net 30 days.'' \<in> set (basicPaymentTermExtraction [?c1, ?c2])"
    by simp
  from payment_terms_extraction [of ?c2 "[?c1, ?c2]"] b t2
  have r2: "''Payment is due within 10 days.'' \<in> set (basicPaymentTermExtraction [?c1, ?c2])"
    by simp
  from payment_terms_extraction [of "exampleClause 3 ''doc'' []" _ _
         "'' will be assessed on all overdue amounts.''"] c
  have r3: "basicPaymentTermExtraction
        [(exampleClause 3 ''doc'' [])\<lparr>clause := ''Net 30 days from receipt of invoice. A late payment fee of 1.5% per month''
                   @ '' will be assessed on all overdue amounts.''\<rparr>]
       = [''Payment terms: Net 30 days.'']"
    by blast
  from a b c r1 r2 r3 show ?thesis by blast
qed

section \<open>Properties of the analysis with the model\<close>

lemma analyzeClauseWithAI_total:
  "analyzeClauseWithAI reply clauseText rules section =
     Inr (case aiReplyAnalysis reply section of Inr a \<Rightarrow> a | Inl e \<Rightarrow> aiFailedAnalysis section)"
  by (simp add: analyzeClauseWithAI_def split: sum.splits)

lemma analyzeFrom_clauses: "map clause (analyzeFrom key runs rules docId i cs) = cs"
  by (induction cs arbitrary: i) (simp_all add: analyzedClause_def Let_def)

lemma analyzeFrom_docId:
  "c \<in> set (analyzeFrom key runs rules docId i cs) \<Longrightarrow> document_id c = docId"
  by (induction cs arbitrary: i) (auto simp: analyzedClause_def Let_def)

text \<open>
  C8. With an API key, a failed request, a reply without content and a reply that is not
  JSON all end in the fixed analysis of the \<open>catch\<close> block of \<open>analyzeClauseWithAI\<close>
  (Review Needed, risk 5): that function never throws, so the fallback to
  \<open>basicClauseAnalysis\<close> in \<open>analyzeDocument\<close> is never taken, although for the empty rule
  set the heuristic analysis would answer Compliant. No error leaves the analysis, and the
  loop returns one analysed clause for every clause of the document, in order.
\<close>

theorem ai_failure_skips_heuristic_fallback:
  "clauseAnalysis True (run\<lparr>aiReply := CallFailed\<rparr>) clauseText rules section = aiFailedAnalysis section
   \<and> clauseAnalysis True (run\<lparr>aiReply := NoContent\<rparr>) clauseText rules section = aiFailedAnalysis section
   \<and> clauseAnalysis True (run\<lparr>aiReply := InvalidJson\<rparr>) clauseText rules section = aiFailedAnalysis section
   \<and> compliance_status (aiFailedAnalysis section) = ReviewNeeded
   \<and> risk_score (aiFailedAnalysis section) = 5
   \<and> compliance_status (basicClauseAnalysis clauseText [] section (analysisDraws run)) = Compliant
   \<and> analyzeClauseWithAI reply clauseText rules section =
       Inr (case aiReplyAnalysis reply section of Inr a \<Rightarrow> a | Inl e \<Rightarrow> aiFailedAnalysis section)
   \<and> map clause (analyzeDocument key runs clauses rules docId) = clauses"
  by (simp add: clauseAnalysis_def analyzeClauseWithAI_total aiReplyAnalysis_def
       aiFailedAnalysis_def basicClauseAnalysis_def determineStatus_def Let_def
       analyzeDocument_def analyzeFrom_clauses)

section \<open>Properties of the upload route\<close>

lemma removesOnly_table: "removesOnly f \<Longrightarrow> set (clausesList (f st)) \<subseteq> set (clausesList st)"
  by (simp add: removesOnly_def)

lemma removesOnly_inv: "removesOnly f \<Longrightarrow> storageInv st \<Longrightarrow> storageInv (f st)"
  unfolding removesOnly_def storageInv_def
  by (meson less_le_trans subsetD)

lemma deleteClause_table: "set (clausesList (deleteClause i st)) \<subseteq> set (clausesList st)"
  by (auto simp: deleteClause_def)

lemma deleteClause_removesOnly: "removesOnly (deleteClause i)"
  by (auto simp: removesOnly_def deleteClause_def)

lemma deleteClause_inv: "storageInv st \<Longrightarrow> storageInv (deleteClause i st)"
  by (rule removesOnly_inv [OF deleteClause_removesOnly])

lemma deleteEach_table:
  assumes "\<And>k. removesOnly (others k)"
  shows "set (clausesList (snd (deleteEach fault others k cs st))) \<subseteq> set (clausesList st)"
proof (induction cs arbitrary: k st)
  case Nil
  then show ?case by simp
next
  case (Cons c cs)
  let ?st = "others k (deleteClause (clause_id c) st)"
  have a: "set (clausesList (snd (deleteEach fault others k cs st))) \<subseteq> set (clausesList st)"
    by (rule Cons.IH)
  have b: "set (clausesList (others k st)) \<subseteq> set (clausesList st)"
    by (rule removesOnly_table [OF assms])
  have "set (clausesList (snd (deleteEach fault others (Suc k) cs ?st))) \<subseteq> set (clausesList ?st)"
    by (rule Cons.IH)
  also have "\<dots> \<subseteq> set (clausesList (deleteClause (clause_id c) st))"
    by (rule removesOnly_table [OF assms])
  also have "\<dots> \<subseteq> set (clausesList st)" by (rule deleteClause_table)
  finally show ?case using a b by simp
qed

lemma deleteEach_inv:
  assumes "\<And>k. removesOnly (others k)"
  shows "storageInv st \<Longrightarrow> storageInv (snd (deleteEach fault others k cs st))"
proof (induction cs arbitrary: k st)
  case Nil
  then show ?case by simp
next
  case (Cons c cs)
  let ?st = "others k (deleteClause (clause_id c) st)"
  from Cons.prems have "storageInv ?st"
    by (intro removesOnly_inv [OF assms] deleteClause_inv)
  then have a: "storageInv (snd (deleteEach fault others (Suc k) cs ?st))" by (rule Cons.IH)
  from Cons.prems have b: "storageInv (snd (deleteEach fault others k cs st))" by (rule Cons.IH)
  from Cons.prems have c: "storageInv (others k st)" by (rule removesOnly_inv [OF assms])
  from a b c show ?case by simp
qed

lemma deleteEach_removes:
  assumes others: "\<And>k. removesOnly (others k)"
      and "fst (deleteEach fault others k cs st) = None" "\<forall>c \<in> set cs. clause_id c \<noteq> 0"
      and "r \<in> set (clausesList (snd (deleteEach fault others k cs st)))"
  shows "clause_id r \<notin> clause_id ` set cs"
  using assms(2-)
proof (induction cs arbitrary: k st)
  case Nil
  then show ?case by simp
next
  case (Cons c cs)
  from Cons.prems(2) have nz: "clause_id c \<noteq> 0" by simp
  from Cons.prems(1) nz have nofault: "fault \<noteq> Some k" by (auto split: if_splits)
  let ?st = "others k (deleteClause (clause_id c) st)"
  from Cons.prems nz nofault have
    1: "fst (deleteEach fault others (Suc k) cs ?st) = None" and
    3: "r \<in> set (clausesList (snd (deleteEach fault others (Suc k) cs ?st)))" by simp_all
  from Cons.prems(2) have 2: "\<forall>c \<in> set cs. clause_id c \<noteq> 0" by simp
  have ih: "clause_id r \<notin> clause_id ` set cs" by (rule Cons.IH [OF 1 2 3])
  have "set (clausesList (snd (deleteEach fault others (Suc k) cs ?st)))
                   \<subseteq> set (clausesList ?st)"
    by (rule deleteEach_table [OF others])
  with 3 have "r \<in> set (clausesList ?st)" by blast
  moreover have "set (clausesList ?st) \<subseteq> set (clausesList (deleteClause (clause_id c) st))"
    by (rule removesOnly_table [OF others])
  ultimately have "r \<in> set (clausesList (deleteClause (clause_id c) st))" by blast
  then have "clause_id r \<noteq> clause_id c" by (simp add: deleteClause_def)
  with ih show ?case by simp
qed

lemma resetClauses_table:
  assumes "\<And>k. removesOnly (others k)"
  shows "set (clausesList (snd (resetClauses fault others st))) \<subseteq> set (clausesList st)"
proof -
  have a: "set (clausesList (others 0 st)) \<subseteq> set (clausesList st)"
    by (rule removesOnly_table [OF assms])
  have "set (clausesList (snd (deleteEach fault others 1 (clausesList st) (others 0 st))))
          \<subseteq> set (clausesList (others 0 st))"
    by (rule deleteEach_table [OF assms])
  with a show ?thesis by (auto simp: resetClauses_def getAllClauses_def)
qed

lemma resetClauses_inv:
  assumes "\<And>k. removesOnly (others k)" and "storageInv st"
  shows "storageInv (snd (resetClauses fault others st))"
proof -
  have a: "storageInv (others 0 st)" by (rule removesOnly_inv [OF assms])
  then have "storageInv (snd (deleteEach fault others 1 (clausesList st) (others 0 st)))"
    by (rule deleteEach_inv [OF assms(1)])
  with a show ?thesis by (simp add: resetClauses_def getAllClauses_def)
qed

lemma reset_clears:
  assumes others: "\<And>k. removesOnly (others k)"
      and ok: "fst (resetClauses fault others st) = None" and inv: "storageInv st"
  shows "clausesList (snd (resetClauses fault others st)) = []"
proof -
  have none: "r \<notin> set (clausesList (snd (resetClauses fault others st)))" for r
  proof
    assume r: "r \<in> set (clausesList (snd (resetClauses fault others st)))"
    from ok have nf: "fault \<noteq> Some 0" by (auto simp: resetClauses_def split: if_splits)
    with ok r have
      1: "fst (deleteEach fault others 1 (clausesList st) (others 0 st)) = None" and
      3: "r \<in> set (clausesList (snd (deleteEach fault others 1 (clausesList st) (others 0 st))))"
      by (simp_all add: resetClauses_def getAllClauses_def)
    from inv have 2: "\<forall>c \<in> set (clausesList st). clause_id c \<noteq> 0"
      by (auto simp: storageInv_def)
    from deleteEach_removes [OF others 1 2 3]
    have "clause_id r \<notin> clause_id ` set (clausesList st)" .
    moreover have "set (clausesList (snd (resetClauses fault others st))) \<subseteq> set (clausesList st)"
      by (rule resetClauses_table [OF others])
    with r have "r \<in> set (clausesList st)" by blast
    ultimately show False by blast
  qed
  show ?thesis
  proof (cases "clausesList (snd (resetClauses fault others st))")
    case Nil
    then show ?thesis .
  next
    case (Cons r rs)
    then have "r \<in> set (clausesList (snd (resetClauses fault others st)))" by simp
    with none [of r] show ?thesis by (rule notE)
  qed
qed

lemma createClause_docs:
  "document_id ` set (clausesList (createClause c st))
     = document_id ` set (clausesList st) \<union> {document_id c}"
  by (simp add: createClause_def)

lemma createClause_inv: "storageInv st \<Longrightarrow> storageInv (createClause c st)"
  by (auto simp: storageInv_def createClause_def less_Suc_eq)

lemma createEach_docs:
  assumes "\<And>k. removesOnly (others k)"
  shows "document_id ` set (clausesList (snd (createEach fault others k cs st)))
           \<subseteq> document_id ` set (clausesList st) \<union> document_id ` set cs"
proof (induction cs arbitrary: k st)
  case Nil
  then show ?case by simp
next
  case (Cons c cs)
  let ?new = "createClause (c\<lparr>completed := Some False\<rparr>) st"
  let ?st = "others k ?new"
  have a: "document_id ` set (clausesList (others k st)) \<subseteq> document_id ` set (clausesList st)"
    by (rule image_mono [OF removesOnly_table [OF assms]])
  have "document_id ` set (clausesList (snd (createEach fault others (Suc k) cs ?st)))
          \<subseteq> document_id ` set (clausesList ?st) \<union> document_id ` set cs"
    by (rule Cons.IH)
  moreover have "document_id ` set (clausesList ?st) \<subseteq> document_id ` set (clausesList ?new)"
    by (rule image_mono [OF removesOnly_table [OF assms]])
  moreover have "document_id ` set (clausesList ?new)
                   = document_id ` set (clausesList st) \<union> {document_id c}"
    by (simp add: createClause_docs)
  ultimately have
    "document_id ` set (clausesList (snd (createEach fault others (Suc k) cs ?st)))
       \<subseteq> document_id ` set (clausesList st) \<union> document_id ` set (c # cs)"
    by auto
  with a show ?case by auto
qed

lemma createEach_inv:
  assumes "\<And>k. removesOnly (others k)"
  shows "storageInv st \<Longrightarrow> storageInv (snd (createEach fault others k cs st))"
proof (induction cs arbitrary: k st)
  case Nil
  then show ?case by simp
next
  case (Cons c cs)
  let ?st = "others k (createClause (c\<lparr>completed := Some False\<rparr>) st)"
  from Cons.prems have "storageInv ?st"
    by (intro removesOnly_inv [OF assms] createClause_inv)
  then have a: "storageInv (snd (createEach fault others (Suc k) cs ?st))" by (rule Cons.IH)
  from Cons.prems have "storageInv (others k st)" by (rule removesOnly_inv [OF assms])
  with a show ?case by simp
qed

lemma analyzeDocument_docId:
  "c \<in> set (analyzeDocument key runs cs rules docId) \<Longrightarrow> document_id c = docId"
  unfolding analyzeDocument_def by (rule analyzeFrom_docId)

lemma upload_inv:
  assumes quiet: "noInsertionMeanwhile run" and inv: "storageInv st"
  shows "storageInv (snd (upload run fileId st))"
proof -
  from quiet have r: "\<And>k. removesOnly (duringReset run k)" and a: "removesOnly (duringAnalysis run)"
    and i: "\<And>k. removesOnly (duringInsert run k)" and s: "removesOnly (duringSummary run)"
    by (simp_all add: noInsertionMeanwhile_def)
  let ?st2 = "duringAnalysis run (snd (resetClauses (resetFault run) (duringReset run) st))"
  have 2: "storageInv ?st2"
    by (intro removesOnly_inv [OF a] resetClauses_inv [OF r inv])
  have 3: "storageInv (snd (createEach (createFault run) (duringInsert run) 0 cs ?st2))" for cs
    by (rule createEach_inv [OF i 2])
  have 4: "storageInv (duringSummary run
             (snd (createEach (createFault run) (duringInsert run) 0 cs ?st2)))" for cs
    by (rule removesOnly_inv [OF s 3])
  from inv 2 3 4 show ?thesis
    by (simp add: upload_def Let_def split: sum.splits option.splits)
qed

lemma emptyStorage_inv: "storageInv emptyStorage"
  by (simp add: storageInv_def emptyStorage_def)

text \<open>
  C9, as stated, fails: when the reset block throws, the route continues; the upload
  succeeds and the clause of the earlier document is still stored beside the new one.
  No other request takes part in this run.
\<close>

theorem failed_reset_keeps_old_clauses:
  "succeeded (fst (upload faultyResetRun ''1700000000002'' oldStorage))
   \<and> map document_id (clausesList (snd (upload faultyResetRun ''1700000000002'' oldStorage)))
       = [''1700000000000'', ''1700000000002'']"
  by code_simp

text \<open>
  It fails as well when two uploads overlap, although no step of either throws: the reset
  block of the second upload empties the table, the first upload inserts its clause while
  the second awaits its analysis, and when the second upload answers, the clauses of both
  documents are stored.
\<close>

lemma overlapping_uploads_both_resident:
  "succeeded (fst (upload overlappedRun ''1700000000002'' oldStorage))
   \<and> resetClauses (resetFault overlappedRun) (duringReset overlappedRun) oldStorage
       = (None, \<lparr>clausesList = [], clauseCurrentId = 2\<rparr>)
   \<and> map document_id (clausesList (snd (upload overlappedRun ''1700000000002'' oldStorage)))
       = [''1700000000001'', ''1700000000002'']"
  by code_simp

text \<open>
  C9, amended. After a successful upload whose reset block raised no error, and during
  which other requests only removed clauses, every stored clause bears the id of the
  uploaded document. The storage is one whose ids are serial numbers (the invariant holds
  for the empty storage and is kept by such an upload).
\<close>

theorem upload_leaves_only_new_clauses:
  assumes "succeeded (fst (upload run fileId st))"
      and "fst (resetClauses (resetFault run) (duringReset run) st) = None"
      and "noInsertionMeanwhile run"
      and "storageInv st"
  shows "(\<forall>c \<in> set (clausesList (snd (upload run fileId st))). document_id c = fileId)
       \<and> storageInv (snd (upload run fileId st))"
proof
  show "storageInv (snd (upload run fileId st))" by (rule upload_inv [OF assms(3,4)])
  from assms(3) have r: "\<And>k. removesOnly (duringReset run k)"
    and a: "removesOnly (duringAnalysis run)"
    and i: "\<And>k. removesOnly (duringInsert run k)" and s: "removesOnly (duringSummary run)"
    by (simp_all add: noInsertionMeanwhile_def)
  let ?st1 = "snd (resetClauses (resetFault run) (duringReset run) st)"
  let ?st2 = "duringAnalysis run ?st1"
  have "clausesList ?st1 = []" by (rule reset_clears [OF r assms(2,4)])
  moreover have "set (clausesList ?st2) \<subseteq> set (clausesList ?st1)"
    by (rule removesOnly_table [OF a])
  ultimately have empty: "clausesList ?st2 = []" by simp
  from assms(1) obtain extracted rules where
    e: "extractedClauses run = Inr extracted" and ru: "storedRules run = Inr rules"
    by (auto simp: upload_def Let_def succeeded_def split: if_splits sum.splits)
  let ?an = "analyzeDocument (apiKey run) (clauseRuns run) extracted rules fileId"
  let ?st3 = "snd (createEach (createFault run) (duringInsert run) 0 ?an ?st2)"
  from assms(1) e ru have st': "snd (upload run fileId st) = duringSummary run ?st3"
    by (auto simp: upload_def Let_def succeeded_def split: if_splits option.splits)
  have "document_id ` set (clausesList (duringSummary run ?st3))
          \<subseteq> document_id ` set (clausesList ?st3)"
    by (rule image_mono [OF removesOnly_table [OF s]])
  also have "\<dots> \<subseteq> document_id ` set (clausesList ?st2) \<union> document_id ` set ?an"
    by (rule createEach_docs [OF i])
  also have "\<dots> \<subseteq> {fileId}" using empty analyzeDocument_docId by auto
  finally show "\<forall>c \<in> set (clausesList (snd (upload run fileId st))). document_id c = fileId"
    unfolding st' by auto
qed

text \<open>
  The witness is an upload that replaces the clause of an earlier document while another
  request deletes that clause.
\<close>

theorem upload_leaves_only_new_clauses_witness:
  "succeeded (fst (upload racedResetRun ''1700000000002'' oldStorage))
   \<and> fst (resetClauses (resetFault racedResetRun) (duringReset racedResetRun) oldStorage) = None
   \<and> noInsertionMeanwhile racedResetRun
   \<and> storageInv oldStorage
   \<and> map document_id (clausesList (snd (upload racedResetRun ''1700000000002'' oldStorage)))
       = [''1700000000002'']
   \<and> document_id ` set (clausesList (snd (upload racedResetRun ''1700000000002'' oldStorage)))
       \<subseteq> {''1700000000002''}"
proof -
  have a: "succeeded (fst (upload racedResetRun ''1700000000002'' oldStorage))"
    by code_simp
  have b: "fst (resetClauses (resetFault racedResetRun) (duringReset racedResetRun) oldStorage) = None"
    by code_simp
  have c: "noInsertionMeanwhile racedResetRun"
    by (simp add: noInsertionMeanwhile_def racedResetRun_def faultyResetRun_def
          deleteClause_removesOnly) (simp add: removesOnly_def)
  have d: "storageInv oldStorage"
    by (simp add: storageInv_def oldStorage_def exampleClause_def)
  have e: "map document_id (clausesList (snd (upload racedResetRun ''1700000000002'' oldStorage)))
             = [''1700000000002'']"
    by code_simp
  from upload_leaves_only_new_clauses [OF a b c d]
  have "document_id ` set (clausesList (snd (upload racedResetRun ''1700000000002'' oldStorage)))
       \<subseteq> {''1700000000002''}"
    by blast
  with a b c d e show ?thesis by blast
qed

end
